theory Spec2Isabelle
  imports Main
begin

section \<open>JavaScript values the service handles\<close>

text \<open>
  An exception thrown by JavaScript code or by the database driver. \<open>TypeError\<close>,
  \<open>RangeError\<close> and \<open>Error\<close> are instances of the class Error and carry a message;
  \<open>NonError\<close> stands for any other thrown value (\<open>throw "text"\<close>).
\<close>

datatype js_exn = TypeError string | RangeError string | Error string | NonError

fun instanceof_Error :: "js_exn \<Rightarrow> bool" where
  "instanceof_Error (TypeError m) = True"
| "instanceof_Error (RangeError m) = True"
| "instanceof_Error (Error m) = True"
| "instanceof_Error NonError = False"

fun message :: "js_exn \<Rightarrow> string" where
  "message (TypeError m) = m"
| "message (RangeError m) = m"
| "message (Error m) = m"
| "message NonError = []"

text \<open>
  The detail payload of an audit entry (\<open>details?: any\<close>) is a tree of data. Numbers
  are the integers of magnitude below \<open>1e21\<close>, which JavaScript prints in full
  decimal; fractions, and larger numbers, which it prints with an exponent, are not
  covered. \<open>JBigInt\<close> is a BigInt, which \<open>JSON.stringify\<close> refuses. An object lists
  its properties in the order in which they are enumerated. A payload that refers to
  itself is not a tree and is not in this type; \<open>JSON.stringify\<close> refuses it in the
  same way, with a TypeError.
\<close>

datatype json =
    JNull
  | JBool bool
  | JNum int
  | JBigInt int
  | JStr string
  | JArr "json list"
  | JObj "(string \<times> json) list"

fun truthy :: "json \<Rightarrow> bool" where
  "truthy JNull = False"
| "truthy (JBool b) = b"
| "truthy (JNum n) = (n \<noteq> 0)"
| "truthy (JBigInt n) = (n \<noteq> 0)"
| "truthy (JStr s) = (s \<noteq> [])"
| "truthy (JArr xs) = True"
| "truthy (JObj kvs) = True"

subsection \<open>Decimal numerals and \<open>JSON.stringify\<close>\<close>

definition digit_char :: "nat \<Rightarrow> char" where
  "digit_char d = char_of (48 + d)"

fun show_nat :: "nat \<Rightarrow> string" where
  "show_nat n = (if n < 10 then [digit_char n] else show_nat (n div 10) @ [digit_char (n mod 10)])"

definition show_int :: "int \<Rightarrow> string" where
  "show_int i = (if i < 0 then CHR ''-'' # show_nat (nat (- i)) else show_nat (nat i))"

definition hex_char :: "nat \<Rightarrow> char" where
  "hex_char d = (if d < 10 then char_of (48 + d) else char_of (87 + d))"

text \<open>QuoteJSONString: the two-character escapes, and \<open>\u00XX\<close> for the other controls.\<close>

definition quote_char :: "char \<Rightarrow> string" where
  "quote_char c =
     (let n = (of_char c :: nat) in
      if n = 34 then [CHR 0x5C, CHR 0x22]
      else if n = 92 then [CHR 0x5C, CHR 0x5C]
      else if n = 8 then [CHR 0x5C, CHR ''b'']
      else if n = 9 then [CHR 0x5C, CHR ''t'']
      else if n = 10 then [CHR 0x5C, CHR ''n'']
      else if n = 12 then [CHR 0x5C, CHR ''f'']
      else if n = 13 then [CHR 0x5C, CHR ''r'']
      else if n < 32 then [CHR 0x5C, CHR ''u'', CHR ''0'', CHR ''0'', hex_char (n div 16), hex_char (n mod 16)]
      else [c])"

definition quote_string :: "string \<Rightarrow> string" where
  "quote_string s = CHR 0x22 # concat (map quote_char s) @ [CHR 0x22]"

fun join :: "string \<Rightarrow> string list \<Rightarrow> string" where
  "join sep [] = []"
| "join sep [x] = x"
| "join sep (x # y # ys) = x @ sep @ join sep (y # ys)"

text \<open>Runs the serialisations of the parts in order and stops at the first throw.\<close>

fun sequence :: "(js_exn + 'a) list \<Rightarrow> js_exn + 'a list" where
  "sequence [] = Inr []"
| "sequence (Inl e # rs) = Inl e"
| "sequence (Inr x # rs) = (case sequence rs of Inl e \<Rightarrow> Inl e | Inr xs \<Rightarrow> Inr (x # xs))"

fun JSON_stringify :: "json \<Rightarrow> js_exn + string" where
  "JSON_stringify JNull = Inr ''null''"
| "JSON_stringify (JBool b) = Inr (if b then ''true'' else ''false'')"
| "JSON_stringify (JNum n) = Inr (show_int n)"
| "JSON_stringify (JBigInt n) = Inl (TypeError ''Do not know how to serialize a BigInt'')"
| "JSON_stringify (JStr s) = Inr (quote_string s)"
| "JSON_stringify (JArr xs) =
     (case sequence (map JSON_stringify xs) of
        Inl e \<Rightarrow> Inl e
      | Inr ss \<Rightarrow> Inr (''['' @ join '','' ss @ '']''))"
| "JSON_stringify (JObj kvs) =
     (case sequence (map (\<lambda>(k, v). map_sum id (\<lambda>s. quote_string k @ '':'' @ s) (JSON_stringify v)) kvs) of
        Inl e \<Rightarrow> Inl e
      | Inr ss \<Rightarrow> Inr (''{'' @ join '','' ss @ ''}''))"

text \<open>
  \<open>String.prototype.toUpperCase\<close> on strings of ASCII characters: the letters a to z
  are mapped, every other character is kept. Letters outside ASCII, which JavaScript
  maps too, are not covered.
\<close>

definition upper_char :: "char \<Rightarrow> char" where
  "upper_char c =
     (let n = (of_char c :: nat) in if 97 \<le> n \<and> n \<le> 122 then char_of (n - 32) else c)"

definition toUpperCase :: "string \<Rightarrow> string" where
  "toUpperCase s = map upper_char s"

section \<open>Dates\<close>

text \<open>
  A time value is a number of milliseconds since 1970-01-01T00:00:00Z. The calendar
  functions are those of ECMAScript (\<open>Day\<close>, \<open>TimeWithinDay\<close>, \<open>YearFromTime\<close>,
  \<open>MonthFromTime\<close>, \<open>DateFromTime\<close>, \<open>MakeDay\<close>, \<open>MakeDate\<close>, \<open>LocalTime\<close>, \<open>UTC\<close>,
  \<open>TimeClip\<close>) in the proleptic Gregorian calendar. Internally days are counted from
  0000-03-01 and years start in March, so that the leap day is the last day of a year;
  719468 is the number of days from there to 1970-01-01.
\<close>

type_synonym date = int

definition msPerDay :: int where
  "msPerDay = 86400000"

definition Day :: "date \<Rightarrow> int" where
  "Day t = t div msPerDay"

definition TimeWithinDay :: "date \<Rightarrow> int" where
  "TimeWithinDay t = t mod msPerDay"

definition MakeDate :: "int \<Rightarrow> int \<Rightarrow> date" where
  "MakeDate dy tm = dy * msPerDay + tm"

definition days_before_year :: "int \<Rightarrow> int" where
  "days_before_year y = 365 * y + y div 4 - y div 100 + y div 400"

definition days_before_month :: "int \<Rightarrow> int" where
  "days_before_month mp = (153 * mp + 2) div 5"

text \<open>The March-based year of a day number counted from 0000-03-01, and the day in it.\<close>

definition march_year :: "int \<Rightarrow> int \<times> int" where
  "march_year z =
     (let n400 = z div 146097; d1 = z mod 146097;
          n100 = min 3 (d1 div 36524); d2 = d1 - 36524 * n100;
          n4 = d2 div 1461; d3 = d2 mod 1461;
          n1 = min 3 (d3 div 365)
      in (400 * n400 + 100 * n100 + 4 * n4 + n1, d3 - 365 * n1))"

definition march_month :: "int \<Rightarrow> int" where
  "march_month doy = (5 * doy + 2) div 153"

definition YearFromTime :: "date \<Rightarrow> int" where
  "YearFromTime t =
     (let (y, doy) = march_year (Day t + 719468)
      in if march_month doy < 10 then y else y + 1)"

text \<open>Months are numbered from 0 (January) to 11, days of the month from 1.\<close>

definition MonthFromTime :: "date \<Rightarrow> int" where
  "MonthFromTime t =
     (let (y, doy) = march_year (Day t + 719468); mp = march_month doy
      in if mp < 10 then mp + 2 else mp - 10)"

definition DateFromTime :: "date \<Rightarrow> int" where
  "DateFromTime t =
     (let (y, doy) = march_year (Day t + 719468)
      in doy - days_before_month (march_month doy) + 1)"

text \<open>
  \<open>MakeDay year month dt\<close> is the day number of the first of the month plus \<open>dt - 1\<close>;
  a month outside 0..11 carries into the year, a \<open>dt\<close> outside the month carries into
  the neighbouring months.
\<close>

definition MakeDay :: "int \<Rightarrow> int \<Rightarrow> int \<Rightarrow> int" where
  "MakeDay yr month dt =
     (let ym = yr + month div 12; mn = month mod 12;
          y = (if mn < 2 then ym - 1 else ym);
          mp = (if mn < 2 then mn + 10 else mn - 2)
      in days_before_year y + days_before_month mp - 719468 + dt - 1)"

text \<open>
  A \<open>Date\<close> object holds a time value or, when it is invalid, NaN. \<open>TimeClip\<close> makes
  a time outside the range of 100 000 000 days around the epoch invalid.
\<close>

datatype jsdate = DateValue date | InvalidDate

definition TimeClip :: "int \<Rightarrow> jsdate" where
  "TimeClip t = (if 8640000000000000 < \<bar>t\<bar> then InvalidDate else DateValue t)"

text \<open>
  A time zone gives the offset of local time in milliseconds (\<open>LocalTZA\<close>): at the
  time value \<open>t\<close> when the flag holds, and at the local time \<open>t\<close> otherwise. Nothing
  is assumed of it.
\<close>

type_synonym time_zone = "date \<Rightarrow> bool \<Rightarrow> int"

definition LocalTime :: "time_zone \<Rightarrow> date \<Rightarrow> int" where
  "LocalTime tza t = t + tza t True"

definition UTC :: "time_zone \<Rightarrow> int \<Rightarrow> int" where
  "UTC tza t = t - tza t False"

text \<open>
  The methods of a valid \<open>Date\<close> with time value \<open>tv\<close>. They read and write the fields
  of local time.
\<close>

definition getDate :: "time_zone \<Rightarrow> date \<Rightarrow> int" where
  "getDate tza tv = DateFromTime (LocalTime tza tv)"

definition setDate :: "time_zone \<Rightarrow> date \<Rightarrow> int \<Rightarrow> jsdate" where
  "setDate tza tv dt =
     (let t = LocalTime tza tv;
          newDate = MakeDate (MakeDay (YearFromTime t) (MonthFromTime t) dt) (TimeWithinDay t)
      in TimeClip (UTC tza newDate))"

definition getFullYear :: "time_zone \<Rightarrow> date \<Rightarrow> int" where
  "getFullYear tza tv = YearFromTime (LocalTime tza tv)"

definition setFullYear :: "time_zone \<Rightarrow> date \<Rightarrow> int \<Rightarrow> jsdate" where
  "setFullYear tza tv yr =
     (let t = LocalTime tza tv;
          newDate = MakeDate (MakeDay yr (MonthFromTime t) (DateFromTime t)) (TimeWithinDay t)
      in TimeClip (UTC tza newDate))"

section \<open>The store\<close>

text \<open>
  The two tables the service uses, with their rows in the order the database returns
  them. The table declarations are not part of the sources at hand; the columns are the
  ones the service reads and writes, not null where the service uses them as values.
\<close>

record policy_values =
  dataType :: string
  retentionPeriodDays :: int
  description :: string
  legalBasis :: string

record retention_policy = policy_values +
  isActive :: bool

text \<open>
  The columns of an audit entry. The retention date is a \<open>Date\<close> in the object that
  the recorder hands to the driver (\<open>jsdate insertAuditLog\<close>) and a time value in a
  row of the table (\<open>date audit_log\<close>).
\<close>

record 'd insertAuditLog =
  userId :: string
  clinicId :: "string option"
  action :: string
  entityType :: string
  entityId :: "string option"
  details :: "string option"
  ipAddress :: "string option"
  userAgent :: "string option"
  successful :: bool
  errorMessage :: "string option"
  retentionDate :: "'d option"

record 'd audit_log = "'d insertAuditLog" +
  entry_id :: nat
  timestamp :: date

text \<open>
  The state of the world a call runs in: the tables, the next serial id, the fate of
  the storage calls to come, and the time zone of the host. Each storage call takes the
  head of \<open>pending\<close>: \<open>None\<close> lets it succeed, \<open>Some e\<close> makes it throw \<open>e\<close> and
  leave the tables as they are; when the list is used up every call succeeds.
\<close>

record world =
  auditLogs :: "date audit_log list"
  dataRetentionPolicies :: "retention_policy list"
  next_id :: nat
  pending :: "js_exn option list"
  LocalTZA :: time_zone

definition db_call :: "world \<Rightarrow> js_exn option \<times> world" where
  "db_call w = (case pending w of [] \<Rightarrow> (None, w) | f # fs \<Rightarrow> (f, w\<lparr>pending := fs\<rparr>))"

text \<open>\<open>db.select().from(dataRetentionPolicies).where(cond)\<close>\<close>

definition select_policies ::
  "(retention_policy \<Rightarrow> bool) \<Rightarrow> world \<Rightarrow> (js_exn + retention_policy list) \<times> world" where
  "select_policies cond w =
     (case db_call w of
        (Some e, w') \<Rightarrow> (Inl e, w')
      | (None, w') \<Rightarrow> (Inr (filter cond (dataRetentionPolicies w')), w'))"

text \<open>
  Modelled from the spec: the declaration of the policy table is missing. A policy has
  an active flag, which the seeding routine does not set, and a seeded policy is
  consulted by the recorder, so the column's default is taken to be \<open>true\<close>.
  With it, this is \<open>db.insert(dataRetentionPolicies).values(v)\<close>.
\<close>

definition insert_policy :: "policy_values \<Rightarrow> world \<Rightarrow> (js_exn + unit) \<times> world" where
  "insert_policy v w =
     (case db_call w of
        (Some e, w') \<Rightarrow> (Inl e, w')
      | (None, w') \<Rightarrow>
          (Inr (), w'\<lparr>dataRetentionPolicies :=
             dataRetentionPolicies w' @ [policy_values.extend v (retention_policy.fields True)]\<rparr>))"

text \<open>
  The driver writes a \<open>Date\<close> as its ISO string (\<open>toISOString\<close>), which throws on an
  invalid \<open>Date\<close>.
\<close>

definition mapToDriverValue :: "jsdate \<Rightarrow> js_exn + date" where
  "mapToDriverValue d =
     (case d of
        DateValue t \<Rightarrow> Inr t
      | InvalidDate \<Rightarrow> Inl (RangeError ''Invalid time value''))"

text \<open>
  Modelled from the spec: the declaration of the audit table is missing. An entry has a
  creation timestamp that is set once, when it is written, and the recorder does not
  set it, so the database stamps the row with the current time and the next serial id.
  With them, this is \<open>db.insert(auditLogs).values(v)\<close>: the values are converted
  when the statement is built, before the storage call.
\<close>

definition retention_column :: "jsdate option \<Rightarrow> js_exn + date option" where
  "retention_column d =
     (case d of
        None \<Rightarrow> Inr None
      | Some x \<Rightarrow> map_sum id Some (mapToDriverValue x))"

definition insert_auditLog ::
  "date \<Rightarrow> jsdate insertAuditLog \<Rightarrow> world \<Rightarrow> (js_exn + unit) \<times> world" where
  "insert_auditLog now v w =
     (case retention_column (retentionDate v) of
        Inl e \<Rightarrow> (Inl e, w)
      | Inr column \<Rightarrow>
          (case db_call w of
             (Some e, w') \<Rightarrow> (Inl e, w')
           | (None, w') \<Rightarrow>
               (Inr (), w'\<lparr>auditLogs :=
                           auditLogs w' @
                             [\<lparr>userId = userId v, clinicId = clinicId v, action = action v,
                               entityType = entityType v, entityId = entityId v,
                               details = details v, ipAddress = ipAddress v,
                               userAgent = userAgent v, successful = successful v,
                               errorMessage = errorMessage v, retentionDate = column,
                               entry_id = next_id w', timestamp = now\<rparr>],
                         next_id := Suc (next_id w')\<rparr>)))"

text \<open>SQL comparisons: a comparison with NULL is not true.\<close>

definition lt :: "date option \<Rightarrow> date \<Rightarrow> bool" where
  "lt col v = (case col of None \<Rightarrow> False | Some d \<Rightarrow> d < v)"


text \<open>\<open>db.delete(auditLogs).where(cond).returning({ id })\<close>: the ids of the deleted rows.\<close>

definition delete_auditLogs ::
  "(date audit_log \<Rightarrow> bool) \<Rightarrow> world \<Rightarrow> (js_exn + nat list) \<times> world" where
  "delete_auditLogs cond w =
     (case db_call w of
        (Some e, w') \<Rightarrow> (Inl e, w')
      | (None, w') \<Rightarrow>
          (Inr (map entry_id (filter cond (auditLogs w'))),
           w'\<lparr>auditLogs := filter (\<lambda>r. \<not> cond r) (auditLogs w')\<rparr>))"


section \<open>AuditService\<close>

record logAction_params =
  p_userId :: string
  p_clinicId :: "string option"
  p_action :: string
  p_entityType :: string
  p_entityId :: "string option"
  p_details :: "json option"
  p_ipAddress :: "string option"
  p_userAgent :: "string option"
  p_successful :: "bool option"
  p_errorMessage :: "string option"

subsection \<open>calculateRetentionDate\<close>

text \<open>The body of the \<open>try\<close> block; \<open>now\<close> is what \<open>new Date()\<close> returns.\<close>

definition calculateRetentionDate_try ::
  "date \<Rightarrow> string \<Rightarrow> world \<Rightarrow> (js_exn + jsdate option) \<times> world" where
  "calculateRetentionDate_try now entityType' w =
     (case select_policies (\<lambda>p. dataType p = entityType' \<and> isActive p = True) w of
        (Inl e, w') \<Rightarrow> (Inl e, w')
      | (Inr rows, w') \<Rightarrow>
          (case rows of
             policy # _ \<Rightarrow>
               (Inr (Some (setDate (LocalTZA w') now
                             (getDate (LocalTZA w') now + retentionPeriodDays policy))), w')
           | [] \<Rightarrow>
               (Inr (Some (setFullYear (LocalTZA w') now (getFullYear (LocalTZA w') now + 7))), w')))"

definition calculateRetentionDate ::
  "date \<Rightarrow> string \<Rightarrow> world \<Rightarrow> (js_exn + jsdate option) \<times> world" where
  "calculateRetentionDate now entityType' w =
     (case calculateRetentionDate_try now entityType' w of
        (Inl error, w') \<Rightarrow> (Inr None, w')
      | (Inr r, w') \<Rightarrow> (Inr r, w'))"

subsection \<open>logAction\<close>

text \<open>\<open>params.details ? JSON.stringify(params.details) : null\<close>\<close>

definition details_column :: "json option \<Rightarrow> js_exn + string option" where
  "details_column d =
     (case d of
        None \<Rightarrow> Inr None
      | Some v \<Rightarrow> if truthy v then map_sum id Some (JSON_stringify v) else Inr None)"

definition logAction_try :: "date \<Rightarrow> logAction_params \<Rightarrow> world \<Rightarrow> (js_exn + unit) \<times> world" where
  "logAction_try now params w =
     (case calculateRetentionDate now (p_entityType params) w of
        (Inl e, w1) \<Rightarrow> (Inl e, w1)
      | (Inr retentionDate', w1) \<Rightarrow>
          (case details_column (p_details params) of
             Inl e \<Rightarrow> (Inl e, w1)
           | Inr details' \<Rightarrow>
               insert_auditLog now
                 \<lparr>userId = p_userId params,
                  clinicId = p_clinicId params,
                  action = toUpperCase (p_action params),
                  entityType = p_entityType params,
                  entityId = p_entityId params,
                  details = details',
                  ipAddress = p_ipAddress params,
                  userAgent = p_userAgent params,
                  successful = (case p_successful params of None \<Rightarrow> True | Some b \<Rightarrow> b),
                  errorMessage = p_errorMessage params,
                  retentionDate = retentionDate'\<rparr> w1))"

definition logAction :: "date \<Rightarrow> logAction_params \<Rightarrow> world \<Rightarrow> (js_exn + unit) \<times> world" where
  "logAction now params w =
     (case logAction_try now params w of
        (Inl error, w') \<Rightarrow> (Inr (), w')
      | (Inr u, w') \<Rightarrow> (Inr (), w'))"

subsection \<open>initializeDefaultPolicies\<close>

definition defaultPolicies :: "policy_values list" where
  "defaultPolicies =
     [\<lparr>dataType = ''call_logs'', retentionPeriodDays = 2555,
       description = ''Patient call recordings and transcripts'', legalBasis = ''HIPAA''\<rparr>,
      \<lparr>dataType = ''appointments'', retentionPeriodDays = 2555,
       description = ''Appointment booking and scheduling records'', legalBasis = ''HIPAA''\<rparr>,
      \<lparr>dataType = ''audit_logs'', retentionPeriodDays = 2190,
       description = ''System access and action audit trails'', legalBasis = ''HIPAA''\<rparr>,
      \<lparr>dataType = ''user'', retentionPeriodDays = 1095,
       description = ''User account and profile information'', legalBasis = ''GDPR''\<rparr>,
      \<lparr>dataType = ''consent_records'', retentionPeriodDays = 2190,
       description = ''Patient consent and withdrawal records'', legalBasis = ''GDPR''\<rparr>]"

text \<open>The \<open>for\<close> loop over the policies still to seed; a throw ends it.\<close>

fun seed_loop :: "policy_values list \<Rightarrow> world \<Rightarrow> (js_exn + unit) \<times> world" where
  "seed_loop [] w = (Inr (), w)"
| "seed_loop (policy # rest) w =
     (case select_policies (\<lambda>p. dataType p = dataType policy) w of
        (Inl e, w1) \<Rightarrow> (Inl e, w1)
      | (Inr existing, w1) \<Rightarrow>
          if length existing = 0
          then (case insert_policy policy w1 of
                  (Inl e, w2) \<Rightarrow> (Inl e, w2)
                | (Inr u, w2) \<Rightarrow> seed_loop rest w2)
          else seed_loop rest w1)"

definition initializeDefaultPolicies :: "world \<Rightarrow> (js_exn + unit) \<times> world" where
  "initializeDefaultPolicies w =
     (case seed_loop defaultPolicies w of
        (Inl error, w') \<Rightarrow> (Inr (), w')
      | (Inr u, w') \<Rightarrow> (Inr (), w'))"

subsection \<open>cleanupExpiredLogs\<close>

text \<open>The descriptor of the call to \<open>logAction\<close> in the \<open>try\<close> block.\<close>

definition cleanup_success_params :: "nat \<Rightarrow> logAction_params" where
  "cleanup_success_params deletedCount =
     \<lparr>p_userId = ''system'', p_clinicId = None,
      p_action = ''CLEANUP_EXPIRED_LOGS'', p_entityType = ''audit_logs'',
      p_entityId = None,
      p_details = Some (JObj [(''deletedCount'', JNum (int deletedCount))]),
      p_ipAddress = None, p_userAgent = None,
      p_successful = Some True, p_errorMessage = None\<rparr>"

text \<open>The descriptor of the call to \<open>logAction\<close> in the \<open>catch\<close> block.\<close>

definition cleanup_failure_params :: "js_exn \<Rightarrow> logAction_params" where
  "cleanup_failure_params error =
     \<lparr>p_userId = ''system'', p_clinicId = None,
      p_action = ''CLEANUP_EXPIRED_LOGS'', p_entityType = ''audit_logs'',
      p_entityId = None, p_details = None,
      p_ipAddress = None, p_userAgent = None,
      p_successful = Some False,
      p_errorMessage = Some (if instanceof_Error error then message error else ''Unknown error'')\<rparr>"

definition cleanupExpiredLogs_try :: "date \<Rightarrow> world \<Rightarrow> (js_exn + nat) \<times> world" where
  "cleanupExpiredLogs_try now w =
     (case delete_auditLogs (\<lambda>r. lt (retentionDate r) now) w of
        (Inl e, w1) \<Rightarrow> (Inl e, w1)
      | (Inr deletedLogs, w1) \<Rightarrow>
          (case logAction now (cleanup_success_params (length deletedLogs)) w1 of
             (Inl e, w2) \<Rightarrow> (Inl e, w2)
           | (Inr u, w2) \<Rightarrow> (Inr (length deletedLogs), w2)))"

definition cleanupExpiredLogs :: "date \<Rightarrow> world \<Rightarrow> (js_exn + nat) \<times> world" where
  "cleanupExpiredLogs now w =
     (case cleanupExpiredLogs_try now w of
        (Inl error, w1) \<Rightarrow>
          (case logAction now (cleanup_failure_params error) w1 of
             (Inl e, w2) \<Rightarrow> (Inl e, w2)
           | (Inr u, w2) \<Rightarrow> (Inr 0, w2))
      | (Inr n, w1) \<Rightarrow> (Inr n, w1))"

subsection \<open>getAuditTrail\<close>


section \<open>redactPII\<close>

text \<open>
  \<open>redactPII\<close> copies an object and assigns to the copy, so its values live in a heap:
  an object or array is a reference to a cell, and the function returns the heap it
  leaves behind. Values are data: there are no functions and no accessors, and an object
  has its own properties only. The properties that a JavaScript object inherits from
  \<open>Object.prototype\<close> (\<open>toString\<close>, \<open>constructor\<close> and the like), which a field list
  could name, are not covered. An address outside the heap does not occur in a running
  program; it reads as an object without properties.
\<close>

datatype jsval =
    VUndefined
  | VNull
  | VBool bool
  | VNum int
  | VBigInt int
  | VStr string
  | VRef nat

datatype jsobj = Obj "(string \<times> jsval) list" | Arr "jsval list"

type_synonym heap = "jsobj list"

fun truthy_val :: "jsval \<Rightarrow> bool" where
  "truthy_val VUndefined = False"
| "truthy_val VNull = False"
| "truthy_val (VBool b) = b"
| "truthy_val (VNum n) = (n \<noteq> 0)"
| "truthy_val (VBigInt n) = (n \<noteq> 0)"
| "truthy_val (VStr s) = (s \<noteq> [])"
| "truthy_val (VRef a) = True"

fun typeof :: "jsval \<Rightarrow> string" where
  "typeof VUndefined = ''undefined''"
| "typeof VNull = ''object''"
| "typeof (VBool b) = ''boolean''"
| "typeof (VNum n) = ''number''"
| "typeof (VBigInt n) = ''bigint''"
| "typeof (VStr s) = ''string''"
| "typeof (VRef a) = ''object''"

text \<open>The own enumerable properties, which \<open>{ ...data }\<close> copies.\<close>

fun own_props :: "jsobj \<Rightarrow> (string \<times> jsval) list" where
  "own_props (Obj kvs) = kvs"
| "own_props (Arr xs) = zip (map show_nat [0..<length xs]) xs"

definition props_at :: "heap \<Rightarrow> nat \<Rightarrow> (string \<times> jsval) list" where
  "props_at h a = (if a < length h then own_props (h ! a) else [])"

definition spread :: "heap \<Rightarrow> jsval \<Rightarrow> jsobj" where
  "spread h v = (case v of VRef a \<Rightarrow> Obj (props_at h a) | _ \<Rightarrow> Obj [])"

text \<open>
  \<open>o[field]\<close> and \<open>o[field] = v\<close> on the object at address \<open>a\<close>; a property that
  the object does not have reads as \<open>undefined\<close>.
\<close>

definition get_prop :: "heap \<Rightarrow> nat \<Rightarrow> string \<Rightarrow> jsval" where
  "get_prop h a field = (case map_of (props_at h a) field of None \<Rightarrow> VUndefined | Some v \<Rightarrow> v)"

fun assign :: "string \<Rightarrow> jsval \<Rightarrow> (string \<times> jsval) list \<Rightarrow> (string \<times> jsval) list" where
  "assign k v [] = [(k, v)]"
| "assign k v ((k', v') # kvs) = (if k = k' then (k, v) # kvs else (k', v') # assign k v kvs)"

definition set_prop :: "heap \<Rightarrow> nat \<Rightarrow> string \<Rightarrow> jsval \<Rightarrow> heap" where
  "set_prop h a field v = (if a < length h then h[a := Obj (assign field v (props_at h a))] else h)"

subsection \<open>The two replacements\<close>

definition is_digit :: "char \<Rightarrow> bool" where
  "is_digit c = (48 \<le> (of_char c :: nat) \<and> (of_char c :: nat) \<le> 57)"

text \<open>
  The line terminators, which \<open>.\<close> does not match (U+2028 and U+2029 are outside
  the character type).
\<close>

definition is_line_terminator :: "char \<Rightarrow> bool" where
  "is_line_terminator c = ((of_char c :: nat) = 10 \<or> (of_char c :: nat) = 13)"

text \<open>
  A match of \<open>/(\+\d{1,3})(\d{3})(\d+)/\<close> at the start of a string: the three groups
  and the rest of the string. After the plus sign, the first group is greedy but leaves
  three digits to the second group and one to the third, and the third takes every
  digit that follows.
\<close>

definition phone_match :: "string \<Rightarrow> (string \<times> string \<times> string \<times> string) option" where
  "phone_match s =
     (case s of
        [] \<Rightarrow> None
      | c # cs \<Rightarrow>
          if c = CHR ''+'' then
            (let ds = takeWhile is_digit cs; k = length ds in
             if 5 \<le> k then
               (let n = min 3 (k - 4) in
                Some (c # take n ds, take 3 (drop n ds), drop (n + 3) ds, drop k cs))
             else None)
          else None)"

text \<open>\<open>s.replace(/(\+\d{1,3})(\d{3})(\d+)/, '$1$2***')\<close>: the leftmost match is replaced.\<close>

fun replace_phone :: "string \<Rightarrow> string" where
  "replace_phone [] = []"
| "replace_phone (c # cs) =
     (case phone_match (c # cs) of
        Some (g1, g2, g3, rest) \<Rightarrow> g1 @ g2 @ ''***'' @ rest
      | None \<Rightarrow> c # replace_phone cs)"

text \<open>
  A match of \<open>/(.)(.*?)(@.*)/\<close> at the start of a string: one character, then as few
  characters as possible up to an at sign, then the at sign and the rest of the line.
\<close>

definition email_match :: "string \<Rightarrow> (string \<times> string \<times> string \<times> string) option" where
  "email_match s =
     (case s of
        [] \<Rightarrow> None
      | c # cs \<Rightarrow>
          if is_line_terminator c then None
          else
            (let mid = takeWhile (\<lambda>x. x \<noteq> CHR ''@'' \<and> \<not> is_line_terminator x) cs;
                 tl' = drop (length mid) cs in
             case tl' of
               [] \<Rightarrow> None
             | x # xs \<Rightarrow>
                 if x = CHR ''@'' then
                   Some ([c], mid, takeWhile (\<lambda>y. \<not> is_line_terminator y) tl',
                         dropWhile (\<lambda>y. \<not> is_line_terminator y) tl')
                 else None))"

text \<open>\<open>s.replace(/(.)(.*?)(@.*)/, '$1***$3')\<close>\<close>

fun replace_email :: "string \<Rightarrow> string" where
  "replace_email [] = []"
| "replace_email (c # cs) =
     (case email_match (c # cs) of
        Some (g1, g2, g3, rest) \<Rightarrow> g1 @ ''***'' @ g3 @ rest
      | None \<Rightarrow> c # replace_email cs)"

text \<open>
  \<open>v.replace(...)\<close>: only a string has the method; on any other value that is not
  \<open>null\<close> or \<open>undefined\<close> the property \<open>replace\<close> is not a function and the call throws.
\<close>

definition call_replace :: "(string \<Rightarrow> string) \<Rightarrow> jsval \<Rightarrow> js_exn + jsval" where
  "call_replace f v =
     (case v of
        VStr s \<Rightarrow> Inr (VStr (f s))
      | _ \<Rightarrow> Inl (TypeError ''redacted[field].replace is not a function''))"

subsection \<open>The function\<close>

text \<open>The \<open>for\<close> loop over the fields still to redact, on the copy at address \<open>r\<close>.\<close>

fun redact_loop :: "nat \<Rightarrow> string list \<Rightarrow> heap \<Rightarrow> (js_exn + unit) \<times> heap" where
  "redact_loop r [] h = (Inr (), h)"
| "redact_loop r (field # more_fields) h =
     (if truthy_val (get_prop h r field) then
        (if field = ''phone'' then
           (case call_replace replace_phone (get_prop h r field) of
              Inl e \<Rightarrow> (Inl e, h)
            | Inr v \<Rightarrow> redact_loop r more_fields (set_prop h r field v))
         else if field = ''email'' then
           (case call_replace replace_email (get_prop h r field) of
              Inl e \<Rightarrow> (Inl e, h)
            | Inr v \<Rightarrow> redact_loop r more_fields (set_prop h r field v))
         else redact_loop r more_fields (set_prop h r field (VStr ''***REDACTED***'')))
      else redact_loop r more_fields h)"

definition default_fieldsToRedact :: "string list" where
  "default_fieldsToRedact = [''phone'', ''email'', ''name'', ''address'']"

definition redactPII :: "heap \<Rightarrow> jsval \<Rightarrow> string list \<Rightarrow> (js_exn + jsval) \<times> heap" where
  "redactPII h data' fieldsToRedact =
     (if \<not> truthy_val data' \<or> typeof data' \<noteq> ''object'' then (Inr data', h)
      else
        (let redacted = length h; h1 = h @ [spread h data'] in
         case redact_loop redacted fieldsToRedact h1 of
           (Inl e, h2) \<Rightarrow> (Inl e, h2)
         | (Inr u, h2) \<Rightarrow> (Inr (VRef redacted), h2)))"

section \<open>Vocabulary of the statements\<close>

text \<open>The fate of the \<open>n\<close>-th storage call to come (counted from 0).\<close>

definition fate :: "world \<Rightarrow> nat \<Rightarrow> js_exn option" where
  "fate w n = (if n < length (pending w) then pending w ! n else None)"

text \<open>The number of policy rows of a data category.\<close>

definition rows_for :: "string \<Rightarrow> world \<Rightarrow> nat" where
  "rows_for c w = length (filter (\<lambda>p. dataType p = c) (dataRetentionPolicies w))"

text \<open>
  A field on which \<open>redactPII\<close> calls \<open>replace\<close> and whose value is truthy and not a
  string.
\<close>

definition unreplaceable :: "heap \<Rightarrow> nat \<Rightarrow> string \<Rightarrow> bool" where
  "unreplaceable h a f =
     ((f = ''phone'' \<or> f = ''email'') \<and> truthy_val (get_prop h a f) \<and>
      typeof (get_prop h a f) \<noteq> ''string'')"

subsection \<open>Example data\<close>

text \<open>A host on universal time.\<close>

definition utc_zone :: time_zone where
  "utc_zone t isUTC = 0"

text \<open>
  A host whose clocks are on universal time until 2024-03-31T01:00:00Z (day 19813) and
  one hour ahead from then on. A local time that the clocks skip counts as before the
  change.
\<close>

definition spring_forward_zone :: time_zone where
  "spring_forward_zone t isUTC =
     (if isUTC then (if t < 19813 * 86400000 + 3600000 then 0 else 3600000)
      else (if t < 19813 * 86400000 + 7200000 then 0 else 3600000))"

definition empty_world :: world where
  "empty_world =
     \<lparr>auditLogs = [], dataRetentionPolicies = [], next_id = 0, pending = [],
      LocalTZA = utc_zone\<rparr>"

text \<open>An entry about an appointment, with the given id, entity id, creation time and expiry.\<close>

definition example_entry :: "nat \<Rightarrow> string \<Rightarrow> date \<Rightarrow> date option \<Rightarrow> date audit_log" where
  "example_entry n eid created expiry =
     \<lparr>userId = ''u1'', clinicId = None, action = ''CREATE'', entityType = ''appointment'',
      entityId = Some eid, details = None, ipAddress = None, userAgent = None,
      successful = True, errorMessage = None, retentionDate = expiry,
      entry_id = n, timestamp = created\<rparr>"

text \<open>A descriptor of an action on an appointment, with the given detail payload.\<close>

definition example_params :: "json option \<Rightarrow> logAction_params" where
  "example_params d =
     \<lparr>p_userId = ''u1'', p_clinicId = None, p_action = ''create'',
      p_entityType = ''appointment'', p_entityId = Some ''A1'', p_details = d,
      p_ipAddress = None, p_userAgent = None, p_successful = None, p_errorMessage = None\<rparr>"

text \<open>
  A store with three entries: one that expired a day before \<open>now\<close>, one that expires
  a day after, and one without expiry.
\<close>

definition three_entries :: "date \<Rightarrow> world" where
  "three_entries now =
     \<lparr>auditLogs = [example_entry 1 ''A1'' 0 (Some (now - msPerDay)),
                   example_entry 2 ''A1'' 0 (Some (now + msPerDay)),
                   example_entry 3 ''A1'' 0 None],
      dataRetentionPolicies = [], next_id = 4, pending = [],
      LocalTZA = utc_zone\<rparr>"



text \<open>A policy store that already holds two rows of the category \<open>user\<close>.\<close>

definition user_policy :: "int \<Rightarrow> retention_policy" where
  "user_policy n =
     \<lparr>dataType = ''user'', retentionPeriodDays = n, description = ''Accounts'',
      legalBasis = ''GDPR'', isActive = True\<rparr>"

definition two_user_rows :: world where
  "two_user_rows =
     \<lparr>auditLogs = [], dataRetentionPolicies = [user_policy 30, user_policy 60],
      next_id = 0, pending = [],
      LocalTZA = utc_zone\<rparr>"

text \<open>A policy store with one active policy, of 30 days, for appointments.\<close>

definition appointment_policy_world :: world where
  "appointment_policy_world =
     \<lparr>auditLogs = [],
      dataRetentionPolicies =
        [\<lparr>dataType = ''appointment'', retentionPeriodDays = 30, description = ''Bookings'',
          legalBasis = ''HIPAA'', isActive = True\<rparr>],
      next_id = 0, pending = [],
      LocalTZA = utc_zone\<rparr>"

section \<open>The calendar\<close>

lemma capped_quotient:
  fixes x :: int
  assumes "0 \<le> x" and "x \<le> 4 * m" and "0 < m"
  shows "0 \<le> min 3 (x div m) \<and> min 3 (x div m) \<le> 3 \<and>
         0 \<le> x - m * min 3 (x div m) \<and> x - m * min 3 (x div m) \<le> m \<and>
         (x - m * min 3 (x div m) = m \<longrightarrow> min 3 (x div m) = 3)"
proof -
  define q r where "q = x div m" and "r = x mod m"
  have x: "x - m * q = r" "0 \<le> r" "r < m"
    using assms(3) by (simp_all add: q_def r_def minus_mult_div_eq_mod)
  have q0: "0 \<le> q" using assms by (simp add: q_def pos_imp_zdiv_nonneg_iff)
  have "0 \<le> min 3 q \<and> min 3 q \<le> 3 \<and> 0 \<le> x - m * min 3 q \<and> x - m * min 3 q \<le> m \<and>
        (x - m * min 3 q = m \<longrightarrow> min 3 q = 3)"
  proof (cases "q \<le> 3")
    case True
    with x q0 show ?thesis by (simp add: min_def)
  next
    case False
    then have "4 \<le> q" by simp
    then have "m * 4 \<le> m * q" using assms(3) by (intro mult_left_mono) simp_all
    with x assms(2) have "x = 4 * m" by linarith
    with False assms(3) show ?thesis by (simp add: min_def)
  qed
  then show ?thesis unfolding q_def .
qed

text \<open>A year has 365 days, or 366 when the next February has a leap day.\<close>

lemma div_succ:
  fixes y k :: int
  assumes "1 < k"
  shows "(y + 1) div k = y div k + (if (y + 1) mod k = 0 then 1 else 0)"
proof -
  define q r where "q = y div k" and "r = y mod k"
  have y: "y = k * q + r" "0 \<le> r" "r < k"
    using assms by (simp_all add: q_def r_def)
  show ?thesis
  proof (cases "r = k - 1")
    case True
    with y have e: "y + 1 = k * (q + 1) + 0" by (simp add: algebra_simps)
    from assms have "(y + 1) div k = q + 1" by (intro int_div_pos_eq[OF e]) simp_all
    moreover from assms have "(y + 1) mod k = 0" by (intro int_mod_pos_eq[OF e]) simp_all
    ultimately show ?thesis by (simp add: q_def)
  next
    case False
    with y have e: "y + 1 = k * q + (r + 1)" and b: "0 \<le> r + 1" "r + 1 < k" by simp_all
    have "(y + 1) div k = q" by (rule int_div_pos_eq[OF e b])
    moreover have "(y + 1) mod k = r + 1" by (rule int_mod_pos_eq[OF e b])
    ultimately show ?thesis using y(2) by (simp add: q_def)
  qed
qed

lemma year_step:
  "days_before_year (y + 1) =
     days_before_year y + 365 + (if (y + 1) mod 4 = 0 then 1 else 0)
       - (if (y + 1) mod 100 = 0 then 1 else 0) + (if (y + 1) mod 400 = 0 then 1 else 0)"
  unfolding days_before_year_def
  by (simp only: div_succ[of 4 y] div_succ[of 100 y] div_succ[of 400 y]) simp

lemma centuries:
  fixes x :: int
  shows "x mod 100 = 0 \<Longrightarrow> x mod 4 = 0" and "x mod 400 = 0 \<Longrightarrow> x mod 100 = 0"
proof -
  have a: "x mod 100 mod 4 = x mod 4" by (rule mod_mod_cancel) simp
  have b: "x mod 400 mod 100 = x mod 100" by (rule mod_mod_cancel) simp
  show "x mod 100 = 0 \<Longrightarrow> x mod 4 = 0" using a by simp
  show "x mod 400 = 0 \<Longrightarrow> x mod 100 = 0" using b by simp
qed

lemma year_length:
  "days_before_year y + 365 \<le> days_before_year (y + 1) \<and>
   days_before_year (y + 1) \<le> days_before_year y + 366"
  using centuries[of "y + 1"] by (simp add: year_step)

lemma leap_year_next:
  assumes "days_before_year (y + 1) = days_before_year y + 366"
  shows "days_before_year (y + 8) = days_before_year (y + 7) + 365"
proof -
  have "(y + 1) mod 4 = 0"
    using assms centuries[of "y + 1"] by (simp add: year_step split: if_splits)
  then have "(y + 8) mod 4 \<noteq> 0" by arith
  with centuries[of "y + 8"] have "(y + 8) mod 100 \<noteq> 0" "(y + 8) mod 400 \<noteq> 0" by auto
  with \<open>(y + 8) mod 4 \<noteq> 0\<close> show ?thesis
    using year_step[of "y + 7"] by (simp add: add.assoc)
qed

lemma days_before_year_mono:
  assumes "y \<le> y'"
  shows "days_before_year y \<le> days_before_year y'"
  using assms
proof (induct rule: int_ge_induct)
  case base
  show ?case by simp
next
  case (step i)
  with year_length[of i] show ?case by simp
qed

lemma march_year_sound:
  assumes "march_year z = (y, doy)"
  shows "0 \<le> doy \<and> doy \<le> 365 \<and> days_before_year y + doy = z \<and> z < days_before_year (y + 1)"
proof -
  define a where "a = z div 146097"
  define d1 where "d1 = z mod 146097"
  define b where "b = min 3 (d1 div 36524)"
  define d2 where "d2 = d1 - 36524 * b"
  define c where "c = d2 div 1461"
  define d3 where "d3 = d2 mod 1461"
  define e where "e = min 3 (d3 div 365)"
  have "march_year z = (400 * a + 100 * b + 4 * c + e, d3 - 365 * e)"
    unfolding march_year_def Let_def a_def d1_def b_def d2_def c_def d3_def e_def by (rule refl)
  with assms have y: "y = 400 * a + 100 * b + 4 * c + e" and doy: "doy = d3 - 365 * e"
    by simp_all
  have d1: "0 \<le> d1" "d1 < 146097" by (simp_all add: d1_def)
  have bd2: "0 \<le> b \<and> b \<le> 3 \<and> 0 \<le> d2 \<and> d2 \<le> 36524 \<and> (d2 = 36524 \<longrightarrow> b = 3)"
    unfolding d2_def b_def using d1 by (intro capped_quotient) simp_all
  have z2: "d2 = 1461 * c + d3" and d3: "0 \<le> d3" "d3 < 1461"
    by (simp_all add: c_def d3_def)
  have c: "0 \<le> c" "c \<le> 24" using bd2 z2 d3 by linarith+
  have er: "0 \<le> e \<and> e \<le> 3 \<and> 0 \<le> doy \<and> doy \<le> 365 \<and> (doy = 365 \<longrightarrow> e = 3)"
    unfolding doy e_def using d3 by (intro capped_quotient) simp_all
  have z1: "z = 146097 * a + d1" by (simp add: a_def d1_def)
  have q4: "y div 4 = 100 * a + 25 * b + c"
    using er by (intro int_div_pos_eq[of _ _ _ e]) (simp_all add: y)
  have q100: "y div 100 = 4 * a + b"
    using er c by (intro int_div_pos_eq[of _ _ _ "4 * c + e"]) (simp_all add: y)
  have q400: "y div 400 = a"
    using er c bd2 by (intro int_div_pos_eq[of _ _ _ "100 * b + 4 * c + e"]) (simp_all add: y)
  have s: "days_before_year y + doy = z"
    unfolding days_before_year_def q4 q100 q400 using z1 z2 by (simp add: y doy d2_def)
  have "doy < days_before_year (y + 1) - days_before_year y"
  proof (cases "doy = 365")
    case False
    with er year_length[of y] show ?thesis by simp
  next
    case True
    with er have e3: "e = 3" by simp
    with True have d3': "d3 = 1460" by (simp add: doy)
    have m4: "(y + 1) mod 4 = 0"
      by (intro int_mod_pos_eq[of _ _ "100 * a + 25 * b + c + 1"]) (simp_all add: y e3)
    show ?thesis
    proof (cases "c = 24")
      case False
      with c have c23: "c \<le> 23" by simp
      have "(y + 1) mod 100 = 4 * c + 4"
        using c c23 by (intro int_mod_pos_eq[of _ _ "4 * a + b"]) (simp_all add: y e3)
      with c have m100: "(y + 1) mod 100 \<noteq> 0" by simp
      with centuries(2)[of "y + 1"] have "(y + 1) mod 400 \<noteq> 0" by auto
      with m4 m100 True show ?thesis by (simp add: year_step)
    next
      case True
      with z2 d3' have "d2 = 36524" by simp
      with bd2 have b3: "b = 3" by simp
      have m400: "(y + 1) mod 400 = 0"
        by (intro int_mod_pos_eq[of _ _ "a + 1"]) (simp_all add: y e3 b3 True)
      with centuries(2)[of "y + 1"] have "(y + 1) mod 100 = 0" by simp
      with m4 m400 \<open>doy = 365\<close> show ?thesis by (simp add: year_step)
    qed
  qed
  with s er show ?thesis by simp
qed

lemma march_year_unique:
  assumes "0 \<le> doy" and "days_before_year y + doy < days_before_year (y + 1)"
  shows "march_year (days_before_year y + doy) = (y, doy)"
proof -
  obtain y' doy' where m: "march_year (days_before_year y + doy) = (y', doy')"
    by (cases "march_year (days_before_year y + doy)")
  from march_year_sound[OF m]
  have s: "0 \<le> doy'" "days_before_year y' + doy' = days_before_year y + doy"
    "days_before_year y + doy < days_before_year (y' + 1)" by simp_all
  have "y' = y"
  proof (rule ccontr)
    assume "y' \<noteq> y"
    then consider "y' + 1 \<le> y" | "y + 1 \<le> y'" by linarith
    then show False
    proof cases
      case 1
      from days_before_year_mono[OF 1] s(3) assms(1) show False by simp
    next
      case 2
      from days_before_year_mono[OF 2] s(1,2) assms(2) show False by simp
    qed
  qed
  with s(2) m show ?thesis by simp
qed

lemma march_month_range:
  assumes "0 \<le> doy" "doy \<le> 365"
  shows "0 \<le> march_month doy \<and> march_month doy \<le> 11"
proof -
  define k r where "k = (5 * doy + 2) div 153" and "r = (5 * doy + 2) mod 153"
  have "5 * doy + 2 = 153 * k + r" "0 \<le> r" "r < 153"
    by (simp_all add: k_def r_def)
  with assms have "0 \<le> k \<and> k \<le> 11" by linarith
  then show ?thesis by (simp add: march_month_def k_def)
qed

text \<open>The last day of a year of 366 days is the 29th of February.\<close>

lemma leap_day:
  assumes "0 \<le> doy" "doy \<le> 365"
  shows "(doy = 365) =
     (march_month doy = 11 \<and> doy - days_before_month (march_month doy) + 1 = 29)"
proof
  assume "doy = 365"
  then show "march_month doy = 11 \<and> doy - days_before_month (march_month doy) + 1 = 29"
    by (simp add: march_month_def days_before_month_def)
next
  assume a: "march_month doy = 11 \<and> doy - days_before_month (march_month doy) + 1 = 29"
  then have m: "march_month doy = 11"
    and d: "doy - days_before_month (march_month doy) + 1 = 29" by blast+
  from d show "doy = 365" unfolding m by (simp add: days_before_month_def)
qed

lemma Day_MakeDate: "Day (MakeDate d (TimeWithinDay t)) = d"
  by (simp add: Day_def MakeDate_def TimeWithinDay_def msPerDay_def)

lemma TimeWithinDay_MakeDate: "TimeWithinDay (MakeDate d (TimeWithinDay t)) = TimeWithinDay t"
  by (simp add: MakeDate_def TimeWithinDay_def msPerDay_def)

lemma MakeDate_Day: "MakeDate (Day t + n) (TimeWithinDay t) = t + n * msPerDay"
  by (simp add: MakeDate_def Day_def TimeWithinDay_def ring_distribs)

text \<open>Setting the date fields of a time to its own year and month counts days from it.\<close>

lemma MakeDay_of_time: "MakeDay (YearFromTime t) (MonthFromTime t) (DateFromTime t + n) = Day t + n"
proof -
  obtain y doy where m: "march_year (Day t + 719468) = (y, doy)" by (cases "march_year (Day t + 719468)")
  from march_year_sound[OF m] have s: "0 \<le> doy" "doy \<le> 365" "days_before_year y + doy = Day t + 719468" by simp_all
  from march_month_range[OF s(1,2)] have mp: "0 \<le> march_month doy" "march_month doy \<le> 11" by simp_all
  show ?thesis
  proof (cases "march_month doy < 10")
    case True
    then show ?thesis using m s(3) mp
      by (simp add: MakeDay_def YearFromTime_def MonthFromTime_def DateFromTime_def Let_def)
  next
    case False
    then show ?thesis using m s(3) mp
      by (simp add: MakeDay_def YearFromTime_def MonthFromTime_def DateFromTime_def Let_def)
  qed
qed

lemma setDate_plus:
  "setDate tza tv (getDate tza tv + n) = TimeClip (UTC tza (LocalTime tza tv + n * msPerDay))"
  by (simp add: setDate_def getDate_def MakeDay_of_time MakeDate_Day)

lemma leap_span:
  "2555 \<le> days_before_year (y + 7) - days_before_year y \<and> days_before_year (y + 7) - days_before_year y \<le> 2557"
proof -
  define u where "u = y div 100"
  define v where "v = (y + 7) div 100"
  have A: "1 \<le> (y + 7) div 4 - y div 4" "(y + 7) div 4 - y div 4 \<le> 2" by arith+
  have B: "u \<le> v" "v \<le> u + 1" unfolding u_def v_def by arith+
  have C: "(y + 7) div 400 = v div 4" "y div 400 = u div 4"
    unfolding u_def v_def by (simp_all add: zdiv_zmult2_eq)
  have D: "0 \<le> v div 4 - u div 4" "v div 4 - u div 4 \<le> v - u" using B by arith+
  show ?thesis
    unfolding days_before_year_def C using A B D by (simp add: u_def[symmetric] v_def[symmetric])
qed

text \<open>
  The same date and time of day seven years on. It is 2555 to 2557 days away, and it has
  the same month and day of the month, except that the 29th of February, which the
  seventh year after a leap year does not have, becomes the 1st of March.
\<close>

lemma seven_years_on:
  fixes t :: date
  defines "target \<equiv>
    MakeDate (MakeDay (YearFromTime t + 7) (MonthFromTime t) (DateFromTime t)) (TimeWithinDay t)"
  shows "TimeWithinDay target = TimeWithinDay t \<and>
         Day t + 2555 \<le> Day target \<and> Day target \<le> Day t + 2557 \<and>
         (YearFromTime target, MonthFromTime target, DateFromTime target) =
           (if MonthFromTime t = 1 \<and> DateFromTime t = 29 then (YearFromTime t + 7, 2, 1)
            else (YearFromTime t + 7, MonthFromTime t, DateFromTime t))"
proof -
  obtain y doy where m: "march_year (Day t + 719468) = (y, doy)"
    by (cases "march_year (Day t + 719468)")
  from march_year_sound[OF m]
  have s: "0 \<le> doy" "doy \<le> 365" "days_before_year y + doy = Day t + 719468"
    "Day t + 719468 < days_before_year (y + 1)" by simp_all
  define mp where "mp = march_month doy"
  from march_month_range[OF s(1,2)] have mp: "0 \<le> mp" "mp \<le> 11" by (simp_all add: mp_def)
  have Yt: "YearFromTime t = (if mp < 10 then y else y + 1)"
    by (simp add: YearFromTime_def m mp_def)
  have Mt: "MonthFromTime t = (if mp < 10 then mp + 2 else mp - 10)"
    by (simp add: MonthFromTime_def m mp_def Let_def)
  have Dt: "DateFromTime t = doy - days_before_month mp + 1"
    by (simp add: DateFromTime_def m mp_def)
  have md: "MakeDay (YearFromTime t + 7) (MonthFromTime t) (DateFromTime t) =
      days_before_year (y + 7) + doy - 719468"
  proof (cases "mp < 10")
    case True
    then show ?thesis using mp by (simp add: MakeDay_def Let_def Yt Mt Dt)
  next
    case False
    then show ?thesis using mp by (simp add: MakeDay_def Let_def Yt Mt Dt add.commute)
  qed
  have dt: "Day target + 719468 = days_before_year (y + 7) + doy"
    by (simp add: target_def Day_MakeDate md)
  have tw: "TimeWithinDay target = TimeWithinDay t"
    by (simp add: target_def TimeWithinDay_MakeDate)
  have span: "Day t + 2555 \<le> Day target \<and> Day target \<le> Day t + 2557"
    using leap_span[of y] s(3) dt by simp
  have civil: "(YearFromTime target, MonthFromTime target, DateFromTime target) =
           (if MonthFromTime t = 1 \<and> DateFromTime t = 29 then (YearFromTime t + 7, 2, 1)
            else (YearFromTime t + 7, MonthFromTime t, DateFromTime t))"
  proof (cases "doy = 365")
    case True
    with s(3,4) year_length[of y]
    have "days_before_year (y + 1) = days_before_year y + 366" by simp
    from leap_year_next[OF this] True dt
    have dt': "Day target + 719468 = days_before_year (y + 8) + 0" by simp
    have "days_before_year (y + 8) + 0 < days_before_year (y + 8 + 1)"
      using year_length[of "y + 8"] by simp
    from march_year_unique[OF _ this]
    have my: "march_year (Day target + 719468) = (y + 8, 0)" unfolding dt' by simp
    have m0: "march_month 0 = 0" "days_before_month 0 = 0"
      by (simp_all add: march_month_def days_before_month_def)
    have new: "(YearFromTime target, MonthFromTime target, DateFromTime target) = (y + 8, 2, 1)"
      by (simp add: YearFromTime_def MonthFromTime_def DateFromTime_def my m0)
    from leap_day[OF s(1,2)] True
    have "march_month doy = 11 \<and> doy - days_before_month (march_month doy) + 1 = 29" by blast
    then have "mp = 11" "doy - days_before_month mp + 1 = 29" unfolding mp_def by blast+
    then show ?thesis unfolding new by (simp add: Yt Mt Dt)
  next
    case False
    with s(2) year_length[of "y + 7"]
    have "days_before_year (y + 7) + doy < days_before_year (y + 7 + 1)" by simp
    from march_year_unique[OF s(1) this]
    have my: "march_year (Day target + 719468) = (y + 7, doy)" unfolding dt .
    have new: "(YearFromTime target, MonthFromTime target, DateFromTime target) =
        (YearFromTime t + 7, MonthFromTime t, DateFromTime t)"
      by (simp add: YearFromTime_def MonthFromTime_def DateFromTime_def my m Let_def)
    from leap_day[OF s(1,2)] False
    have "\<not> (mp = 11 \<and> doy - days_before_month mp + 1 = 29)" unfolding mp_def by blast
    with mp have "\<not> (MonthFromTime t = 1 \<and> DateFromTime t = 29)"
      by (auto simp add: Mt Dt split: if_splits)
    then show ?thesis unfolding new by simp
  qed
  from tw span civil show ?thesis by blast
qed

text \<open>1970-01-01T00:00:01Z on a host on universal time, seven years on: 2557 days later.\<close>

lemma setFullYear_example:
  "setFullYear utc_zone 1000 (getFullYear utc_zone 1000 + 7) = DateValue (2557 * msPerDay + 1000)"
proof -
  have d: "(YearFromTime 1000, MonthFromTime 1000, DateFromTime 1000) = (1970, 0, 1)"
    by (simp add: YearFromTime_def MonthFromTime_def DateFromTime_def Day_def
        msPerDay_def march_year_def march_month_def days_before_month_def Let_def)
  show ?thesis
    using d by (simp add: setFullYear_def getFullYear_def LocalTime_def UTC_def utc_zone_def
        TimeClip_def MakeDay_def days_before_year_def
        days_before_month_def TimeWithinDay_def MakeDate_def msPerDay_def Let_def)
qed

section \<open>Storage calls\<close>

lemma db_call_fate: "db_call w = (fate w 0, w\<lparr>pending := tl (pending w)\<rparr>)"
  by (cases "pending w") (simp_all add: db_call_def fate_def)

lemma fate_tl [simp]: "fate (w\<lparr>pending := tl (pending w)\<rparr>) n = fate w (Suc n)"
  by (cases "pending w") (simp_all add: fate_def)

lemma fate_other_fields [simp]:
  "fate (w\<lparr>auditLogs := x\<rparr>) n = fate w n"
  "fate (w\<lparr>next_id := y\<rparr>) n = fate w n"
  "fate (w\<lparr>dataRetentionPolicies := z\<rparr>) n = fate w n"
  by (simp_all add: fate_def)

section \<open>The recorder\<close>

lemma logAction_returns: "fst (logAction now params w) = Inr ()"
  by (simp add: logAction_def split: prod.split sum.split)

lemma calculateRetentionDate_Inr:
  "\<exists>r. calculateRetentionDate now t w = (Inr r, w\<lparr>pending := tl (pending w)\<rparr>)"
  by (simp add: calculateRetentionDate_def calculateRetentionDate_try_def select_policies_def
      db_call_fate split: option.split list.split)

lemma calculateRetentionDate_logs [simp]:
  "fst (calculateRetentionDate now t (w\<lparr>auditLogs := x\<rparr>)) = fst (calculateRetentionDate now t w)"
  by (simp add: calculateRetentionDate_def calculateRetentionDate_try_def select_policies_def
      db_call_fate split: option.split list.split)

lemma calculateRetentionDate_failed:
  "fate w 0 = Some e \<Longrightarrow> fst (calculateRetentionDate now t w) = Inr None"
  by (simp add: calculateRetentionDate_def calculateRetentionDate_try_def select_policies_def
      db_call_fate)

lemma calculateRetentionDate_found:
  "fate w 0 = None \<Longrightarrow>
   filter (\<lambda>p. dataType p = t \<and> isActive p) (dataRetentionPolicies w) = p # ps \<Longrightarrow>
   fst (calculateRetentionDate now t w) =
     Inr (Some (setDate (LocalTZA w) now (getDate (LocalTZA w) now + retentionPeriodDays p)))"
  by (simp add: calculateRetentionDate_def calculateRetentionDate_try_def select_policies_def
      db_call_fate)

lemma calculateRetentionDate_fallback:
  "fate w 0 = None \<Longrightarrow>
   filter (\<lambda>p. dataType p = t \<and> isActive p) (dataRetentionPolicies w) = [] \<Longrightarrow>
   fst (calculateRetentionDate now t w) =
     Inr (Some (setFullYear (LocalTZA w) now (getFullYear (LocalTZA w) now + 7)))"
  by (simp add: calculateRetentionDate_def calculateRetentionDate_try_def select_policies_def
      db_call_fate)

lemma logAction_inserts:
  assumes "details_column (p_details params) = Inr d" and "fate w 1 = None"
    and "fst (calculateRetentionDate now (p_entityType params) w) = Inr r"
    and "retention_column r = Inr column"
  shows "snd (logAction now params w) =
           w\<lparr>pending := tl (tl (pending w)),
             auditLogs := auditLogs w @
               [\<lparr>userId = p_userId params, clinicId = p_clinicId params,
                 action = toUpperCase (p_action params),
                 entityType = p_entityType params, entityId = p_entityId params,
                 details = d, ipAddress = p_ipAddress params,
                 userAgent = p_userAgent params,
                 successful = (case p_successful params of None \<Rightarrow> True | Some b \<Rightarrow> b),
                 errorMessage = p_errorMessage params, retentionDate = column,
                 entry_id = next_id w, timestamp = now\<rparr>],
             next_id := Suc (next_id w)\<rparr>"
proof -
  from calculateRetentionDate_Inr[of now "p_entityType params" w] assms(3)
  have c: "calculateRetentionDate now (p_entityType params) w = (Inr r, w\<lparr>pending := tl (pending w)\<rparr>)"
    by auto
  show ?thesis
    using assms(1,2,4)
    by (simp add: logAction_def logAction_try_def c insert_auditLog_def db_call_fate)
qed

lemma logAction_insert_fails:
  assumes "details_column (p_details params) = Inr d" and "fate w 1 = Some x"
    and "fst (calculateRetentionDate now (p_entityType params) w) = Inr r"
    and "retention_column r = Inr column"
  shows "snd (logAction now params w) = w\<lparr>pending := tl (tl (pending w))\<rparr>"
proof -
  from calculateRetentionDate_Inr[of now "p_entityType params" w] assms(3)
  have c: "calculateRetentionDate now (p_entityType params) w = (Inr r, w\<lparr>pending := tl (pending w)\<rparr>)"
    by auto
  show ?thesis
    using assms(1,2,4)
    by (simp add: logAction_def logAction_try_def c insert_auditLog_def db_call_fate)
qed

lemma logAction_date_refused:
  assumes "details_column (p_details params) = Inr d"
    and "fst (calculateRetentionDate now (p_entityType params) w) = Inr r"
    and "retention_column r = Inl x"
  shows "snd (logAction now params w) = w\<lparr>pending := tl (pending w)\<rparr>"
proof -
  from calculateRetentionDate_Inr[of now "p_entityType params" w] assms(2)
  have c: "calculateRetentionDate now (p_entityType params) w = (Inr r, w\<lparr>pending := tl (pending w)\<rparr>)"
    by auto
  show ?thesis
    using assms(1,3)
    by (simp add: logAction_def logAction_try_def c insert_auditLog_def)
qed

lemma logAction_serialize_fails:
  assumes "details_column (p_details params) = Inl x"
  shows "snd (logAction now params w) = w\<lparr>pending := tl (pending w)\<rparr>"
proof -
  obtain r where c: "calculateRetentionDate now (p_entityType params) w = (Inr r, w\<lparr>pending := tl (pending w)\<rparr>)"
    using calculateRetentionDate_Inr by blast
  show ?thesis
    using assms by (simp add: logAction_def logAction_try_def c)
qed

text \<open>Whatever happens, the recorder appends at most one entry and touches no other.\<close>

lemma logAction_appends:
  "\<exists>extra. auditLogs (snd (logAction now params w)) = auditLogs w @ extra \<and> length extra \<le> 1 \<and>
     (\<forall>x\<in>set extra. action x = toUpperCase (p_action params) \<and> timestamp x = now)"
proof -
  obtain r where r: "fst (calculateRetentionDate now (p_entityType params) w) = Inr r"
    using calculateRetentionDate_Inr[of now "p_entityType params" w] by auto
  show ?thesis
  proof (cases "details_column (p_details params)")
    case (Inl x)
    then show ?thesis by (simp add: logAction_serialize_fails)
  next
    case d: (Inr d)
    show ?thesis
    proof (cases "retention_column r")
      case (Inl x)
      then show ?thesis by (simp add: logAction_date_refused[OF d r])
    next
      case c: (Inr column)
      show ?thesis
      proof (cases "fate w 1")
        case None
        then show ?thesis by (simp add: logAction_inserts[OF d _ r c])
      next
        case (Some x)
        then show ?thesis by (simp add: logAction_insert_fails[OF d _ r c])
      qed
    qed
  qed
qed

text \<open>
  The \<open>try\<close> block of \<open>logAction\<close> does throw: when the payload cannot be serialised,
  when the driver refuses the retention date, and when the insert fails. A failing
  policy lookup is caught one level below.
\<close>

lemma logAction_try_throws_unserialisable:
  "p_details params = Some (JBigInt 1) \<Longrightarrow>
   fst (logAction_try now params w) = Inl (TypeError ''Do not know how to serialize a BigInt'')"
proof -
  assume d: "p_details params = Some (JBigInt 1)"
  obtain r where c: "calculateRetentionDate now (p_entityType params) w = (Inr r, w\<lparr>pending := tl (pending w)\<rparr>)"
    using calculateRetentionDate_Inr by blast
  show ?thesis by (simp add: logAction_try_def c d details_column_def)
qed

lemma logAction_try_throws_invalid_date:
  "fst (calculateRetentionDate now (p_entityType params) w) = Inr (Some InvalidDate) \<Longrightarrow>
   details_column (p_details params) = Inr d \<Longrightarrow>
   fst (logAction_try now params w) = Inl (RangeError ''Invalid time value'')"
proof -
  assume r: "fst (calculateRetentionDate now (p_entityType params) w) = Inr (Some InvalidDate)"
    and d: "details_column (p_details params) = Inr d"
  from calculateRetentionDate_Inr[of now "p_entityType params" w] r
  have c: "calculateRetentionDate now (p_entityType params) w =
      (Inr (Some InvalidDate), w\<lparr>pending := tl (pending w)\<rparr>)"
    by auto
  show ?thesis
    by (simp add: logAction_try_def c d insert_auditLog_def retention_column_def mapToDriverValue_def)
qed

lemma logAction_try_throws_insert:
  "fate w 1 = Some e \<Longrightarrow> details_column (p_details params) = Inr d \<Longrightarrow>
   fst (calculateRetentionDate now (p_entityType params) w) = Inr r \<Longrightarrow>
   retention_column r = Inr column \<Longrightarrow>
   fst (logAction_try now params w) = Inl e"
proof -
  assume f: "fate w 1 = Some e" and d: "details_column (p_details params) = Inr d"
    and r: "fst (calculateRetentionDate now (p_entityType params) w) = Inr r"
    and k: "retention_column r = Inr column"
  from calculateRetentionDate_Inr[of now "p_entityType params" w] r
  have c: "calculateRetentionDate now (p_entityType params) w = (Inr r, w\<lparr>pending := tl (pending w)\<rparr>)"
    by auto
  show ?thesis using f k by (simp add: logAction_try_def c d insert_auditLog_def db_call_fate)
qed

text \<open>
  C1. For every action descriptor and every state of the store, including the states in
  which the policy lookup or the insert is about to fail, and for every payload,
  including those that cannot be serialised, \<open>logAction\<close> returns normally.
\<close>

theorem logAction_never_throws: "fst (logAction now params w) = Inr ()"
  by (rule logAction_returns)

text \<open>
  A payload that cannot be serialised, with the storage available: nothing is written.
\<close>

theorem logAction_unserialisable_counterexample:
  "auditLogs (snd (logAction 0 (example_params (Some (JBigInt 1))) empty_world)) = []"
  by (simp add: logAction_serialize_fails[of _ "TypeError ''Do not know how to serialize a BigInt''"]
      example_params_def details_column_def empty_world_def)

text \<open>
  C5, as the code has it. If the serialisation of the detail payload throws, the one
  handler of \<open>logAction\<close> catches the exception: the call returns normally and no
  entry is written.
\<close>

theorem logAction_unserialisable:
  "p_details params = Some d \<Longrightarrow> truthy d \<Longrightarrow> JSON_stringify d = Inl x \<Longrightarrow>
   fst (logAction now params w) = Inr () \<and>
   auditLogs (snd (logAction now params w)) = auditLogs w"
  by (simp add: logAction_returns logAction_serialize_fails[of params x] details_column_def)

theorem logAction_unserialisable_witness:
  "fst (logAction 0 (example_params (Some (JBigInt 1))) empty_world) = Inr () \<and>
   auditLogs (snd (logAction 0 (example_params (Some (JBigInt 1))) empty_world)) = auditLogs empty_world"
  using logAction_unserialisable[of "example_params (Some (JBigInt 1))" "JBigInt 1"
      "TypeError ''Do not know how to serialize a BigInt''" 0 empty_world]
  by (simp add: example_params_def)

section \<open>The sweeper\<close>

lemma delete_auditLogs_ok:
  "fate w 0 = None \<Longrightarrow>
   delete_auditLogs c w =
     (Inr (map entry_id (filter c (auditLogs w))),
      w\<lparr>pending := tl (pending w), auditLogs := filter (\<lambda>r. \<not> c r) (auditLogs w)\<rparr>)"
  by (simp add: delete_auditLogs_def db_call_fate)

lemma delete_auditLogs_fails:
  "fate w 0 = Some e \<Longrightarrow> delete_auditLogs c w = (Inl e, w\<lparr>pending := tl (pending w)\<rparr>)"
  by (simp add: delete_auditLogs_def db_call_fate)

lemma lt_iff: "lt c now = (\<exists>d. c = Some d \<and> d < now)"
  by (cases c) (simp_all add: lt_def)

lemma cleanup_details:
  "details_column (p_details (cleanup_success_params n)) =
     Inr (Some (''{'' @ quote_string ''deletedCount'' @ '':'' @ show_nat n @ ''}''))"
  by (simp add: details_column_def show_int_def cleanup_success_params_def)

lemma toUpperCase_cleanup: "toUpperCase ''CLEANUP_EXPIRED_LOGS'' = ''CLEANUP_EXPIRED_LOGS''"
  by (simp add: toUpperCase_def upper_char_def)

lemma logAction_pair: "logAction now params w = (Inr (), snd (logAction now params w))"
  by (metis logAction_returns prod.collapse)

lemma cleanupExpiredLogs_ok:
  assumes "fate w 0 = None"
  shows "cleanupExpiredLogs now w =
    (Inr (length (filter (\<lambda>r. lt (retentionDate r) now) (auditLogs w))),
     snd (logAction now
       (cleanup_success_params (length (filter (\<lambda>r. lt (retentionDate r) now) (auditLogs w))))
       (w\<lparr>pending := tl (pending w),
          auditLogs := filter (\<lambda>r. \<not> lt (retentionDate r) now) (auditLogs w)\<rparr>)))"
proof -
  define n where "n = length (filter (\<lambda>r. lt (retentionDate r) now) (auditLogs w))"
  define w1 where "w1 = w\<lparr>pending := tl (pending w),
          auditLogs := filter (\<lambda>r. \<not> lt (retentionDate r) now) (auditLogs w)\<rparr>"
  obtain w2 where L: "logAction now (cleanup_success_params n) w1 = (Inr (), w2)"
    using logAction_pair by blast
  show ?thesis
    using assms L
    by (simp add: cleanupExpiredLogs_def cleanupExpiredLogs_try_def delete_auditLogs_ok
        n_def[symmetric] w1_def[symmetric])
qed

lemma cleanupExpiredLogs_failed:
  assumes "fate w 0 = Some e"
  shows "cleanupExpiredLogs now w =
    (Inr 0, snd (logAction now (cleanup_failure_params e) (w\<lparr>pending := tl (pending w)\<rparr>)))"
proof -
  obtain w2 where L: "logAction now (cleanup_failure_params e) (w\<lparr>pending := tl (pending w)\<rparr>) = (Inr (), w2)"
    using logAction_pair by blast
  show ?thesis
    using assms L
    by (simp add: cleanupExpiredLogs_def cleanupExpiredLogs_try_def delete_auditLogs_fails)
qed

lemma fate_after_delete [simp]:
  "fate (w\<lparr>pending := tl (pending w), auditLogs := x\<rparr>) n = fate w (Suc n)"
  by (cases "pending w") (simp_all add: fate_def)

lemma not_lt_iff: "(\<not> lt c now) = (\<not> (\<exists>d. c = Some d \<and> d < now))"
  by (simp add: lt_iff)

lemma cleanup_success_fields [simp]:
  "p_userId (cleanup_success_params n) = ''system''"
  "p_action (cleanup_success_params n) = ''CLEANUP_EXPIRED_LOGS''"
  "p_entityType (cleanup_success_params n) = ''audit_logs''"
  "p_successful (cleanup_success_params n) = Some True"
  "p_errorMessage (cleanup_success_params n) = None"
  by (simp_all add: cleanup_success_params_def)

lemma cleanup_failure_fields [simp]:
  "p_userId (cleanup_failure_params e) = ''system''"
  "p_action (cleanup_failure_params e) = ''CLEANUP_EXPIRED_LOGS''"
  "p_entityType (cleanup_failure_params e) = ''audit_logs''"
  "p_successful (cleanup_failure_params e) = Some False"
  "p_errorMessage (cleanup_failure_params e) =
     Some (if instanceof_Error e then message e else ''Unknown error'')"
  "details_column (p_details (cleanup_failure_params e)) = Inr None"
  by (simp_all add: cleanup_failure_params_def details_column_def)

lemma retention_column_Inl: "(retention_column r = Inl x) = (r = Some InvalidDate \<and> x = RangeError ''Invalid time value'')"
  by (auto simp add: retention_column_def mapToDriverValue_def split: option.split jsdate.split)

lemma logAction_not_written:
  assumes "fate w 1 \<noteq> None \<or>
           fst (calculateRetentionDate now (p_entityType params) w) = Inr (Some InvalidDate)"
  shows "auditLogs (snd (logAction now params w)) = auditLogs w"
proof -
  obtain r where r: "fst (calculateRetentionDate now (p_entityType params) w) = Inr r"
    using calculateRetentionDate_Inr[of now "p_entityType params" w] by auto
  show ?thesis
  proof (cases "details_column (p_details params)")
    case (Inl x)
    then show ?thesis by (simp add: logAction_serialize_fails)
  next
    case d: (Inr d)
    show ?thesis
    proof (cases "retention_column r")
      case (Inl x)
      then show ?thesis by (simp add: logAction_date_refused[OF d r])
    next
      case c: (Inr column)
      then have "r \<noteq> Some InvalidDate"
        by (auto simp add: retention_column_def mapToDriverValue_def)
      with assms r obtain x where "fate w 1 = Some x" by auto
      then show ?thesis by (simp add: logAction_insert_fails[OF d _ r c])
    qed
  qed
qed

lemma cleanup_written_ok:
  assumes "fate w 0 = None" and "fate w 2 = None"
    and "fst (calculateRetentionDate now ''audit_logs'' (w\<lparr>pending := tl (pending w)\<rparr>)) = Inr r"
    and "retention_column r = Inr column"
  shows "auditLogs (snd (cleanupExpiredLogs now w)) =
           filter (\<lambda>r. \<not> lt (retentionDate r) now) (auditLogs w) @
             [\<lparr>userId = ''system'', clinicId = None, action = ''CLEANUP_EXPIRED_LOGS'',
               entityType = ''audit_logs'', entityId = None,
               details = Some (''{'' @ quote_string ''deletedCount'' @ '':'' @
                 show_nat (length (filter (\<lambda>r. lt (retentionDate r) now) (auditLogs w))) @ ''}''),
               ipAddress = None, userAgent = None, successful = True, errorMessage = None,
               retentionDate = column, entry_id = next_id w, timestamp = now\<rparr>]"
proof -
  define n where "n = length (filter (\<lambda>r. lt (retentionDate r) now) (auditLogs w))"
  define w1 where "w1 = w\<lparr>pending := tl (pending w),
          auditLogs := filter (\<lambda>r. \<not> lt (retentionDate r) now) (auditLogs w)\<rparr>"
  have r: "fst (calculateRetentionDate now (p_entityType (cleanup_success_params n)) w1) = Inr r"
    using assms(3) by (simp add: w1_def)
  have f: "fate w1 1 = None" using assms(2) by (simp add: w1_def numeral_2_eq_2)
  have s: "snd (cleanupExpiredLogs now w) = snd (logAction now (cleanup_success_params n) w1)"
    using assms(1) by (simp add: cleanupExpiredLogs_ok n_def w1_def)
  note L = logAction_inserts[OF cleanup_details f r assms(4)]
  have "auditLogs (snd (cleanupExpiredLogs now w)) = auditLogs w1 @
               [\<lparr>userId = ''system'', clinicId = None,
                 action = ''CLEANUP_EXPIRED_LOGS'',
                 entityType = ''audit_logs'', entityId = None,
                 details = Some (''{'' @ quote_string ''deletedCount'' @ '':'' @ show_nat n @ ''}''),
                 ipAddress = None, userAgent = None, successful = True,
                 errorMessage = None, retentionDate = column,
                 entry_id = next_id w1, timestamp = now\<rparr>]"
    unfolding s L by (simp add: toUpperCase_cleanup cleanup_success_params_def)
  then show ?thesis by (simp add: w1_def n_def)
qed

lemma cleanup_written_failed:
  assumes "fate w 0 = Some x" and "fate w 2 = None"
    and "fst (calculateRetentionDate now ''audit_logs'' (w\<lparr>pending := tl (pending w)\<rparr>)) = Inr r"
    and "retention_column r = Inr column"
  shows "auditLogs (snd (cleanupExpiredLogs now w)) =
           auditLogs w @
             [\<lparr>userId = ''system'', clinicId = None, action = ''CLEANUP_EXPIRED_LOGS'',
               entityType = ''audit_logs'', entityId = None, details = None,
               ipAddress = None, userAgent = None, successful = False,
               errorMessage = Some (if instanceof_Error x then message x else ''Unknown error''),
               retentionDate = column, entry_id = next_id w, timestamp = now\<rparr>]"
proof -
  define w1 where "w1 = w\<lparr>pending := tl (pending w)\<rparr>"
  have r: "fst (calculateRetentionDate now (p_entityType (cleanup_failure_params x)) w1) = Inr r"
    using assms(3) by (simp add: w1_def)
  have f: "fate w1 1 = None" using assms(2) by (simp add: w1_def numeral_2_eq_2)
  have s: "snd (cleanupExpiredLogs now w) = snd (logAction now (cleanup_failure_params x) w1)"
    using assms(1) by (simp add: cleanupExpiredLogs_failed w1_def)
  note L = logAction_inserts[OF cleanup_failure_fields(6) f r assms(4)]
  have "auditLogs (snd (cleanupExpiredLogs now w)) = auditLogs w1 @
               [\<lparr>userId = ''system'', clinicId = None,
                 action = ''CLEANUP_EXPIRED_LOGS'',
                 entityType = ''audit_logs'', entityId = None,
                 details = None, ipAddress = None, userAgent = None,
                 successful = False,
                 errorMessage = Some (if instanceof_Error x then message x else ''Unknown error''),
                 retentionDate = column,
                 entry_id = next_id w1, timestamp = now\<rparr>]"
    unfolding s L by (simp add: toUpperCase_cleanup cleanup_failure_params_def)
  then show ?thesis by (simp add: w1_def)
qed

lemma cleanup_not_written:
  assumes "fate w 2 \<noteq> None \<or>
      fst (calculateRetentionDate now ''audit_logs'' (w\<lparr>pending := tl (pending w)\<rparr>)) =
        Inr (Some InvalidDate)"
  shows "auditLogs (snd (cleanupExpiredLogs now w)) =
           (if fate w 0 = None then filter (\<lambda>r. \<not> lt (retentionDate r) now) (auditLogs w)
            else auditLogs w)"
proof (cases "fate w 0")
  case None
  define n where "n = length (filter (\<lambda>r. lt (retentionDate r) now) (auditLogs w))"
  define w1 where "w1 = w\<lparr>pending := tl (pending w),
          auditLogs := filter (\<lambda>r. \<not> lt (retentionDate r) now) (auditLogs w)\<rparr>"
  have a: "fate w1 1 \<noteq> None \<or>
      fst (calculateRetentionDate now (p_entityType (cleanup_success_params n)) w1) =
        Inr (Some InvalidDate)"
    using assms by (simp add: w1_def numeral_2_eq_2)
  have s: "snd (cleanupExpiredLogs now w) = snd (logAction now (cleanup_success_params n) w1)"
    using None by (simp add: cleanupExpiredLogs_ok n_def w1_def)
  show ?thesis
    unfolding s logAction_not_written[OF a] using None by (simp add: w1_def)
next
  case (Some x)
  define w1 where "w1 = w\<lparr>pending := tl (pending w)\<rparr>"
  have a: "fate w1 1 \<noteq> None \<or>
      fst (calculateRetentionDate now (p_entityType (cleanup_failure_params x)) w1) =
        Inr (Some InvalidDate)"
    using assms by (simp add: w1_def numeral_2_eq_2)
  have s: "snd (cleanupExpiredLogs now w) = snd (logAction now (cleanup_failure_params x) w1)"
    using Some by (simp add: cleanupExpiredLogs_failed w1_def)
  show ?thesis
    unfolding s logAction_not_written[OF a] using Some by (simp add: w1_def)
qed

text \<open>Whatever happens to its own record, the sweeper leaves the kept entries in front.\<close>

lemma cleanup_logs_shape:
  "\<exists>extra. auditLogs (snd (cleanupExpiredLogs now w)) =
      (if fate w 0 = None then filter (\<lambda>r. \<not> lt (retentionDate r) now) (auditLogs w)
       else auditLogs w) @ extra \<and>
     length extra \<le> 1 \<and>
     (\<forall>x\<in>set extra. action x = ''CLEANUP_EXPIRED_LOGS'' \<and> timestamp x = now)"
proof (cases "fate w 0")
  case None
  define n where "n = length (filter (\<lambda>r. lt (retentionDate r) now) (auditLogs w))"
  define w1 where "w1 = w\<lparr>pending := tl (pending w),
          auditLogs := filter (\<lambda>r. \<not> lt (retentionDate r) now) (auditLogs w)\<rparr>"
  have s: "snd (cleanupExpiredLogs now w) = snd (logAction now (cleanup_success_params n) w1)"
    using None by (simp add: cleanupExpiredLogs_ok n_def w1_def)
  from logAction_appends[of now "cleanup_success_params n" w1] None show ?thesis
    unfolding s by (simp add: toUpperCase_cleanup w1_def)
next
  case (Some x)
  define w1 where "w1 = w\<lparr>pending := tl (pending w)\<rparr>"
  have s: "snd (cleanupExpiredLogs now w) = snd (logAction now (cleanup_failure_params x) w1)"
    using Some by (simp add: cleanupExpiredLogs_failed w1_def)
  from logAction_appends[of now "cleanup_failure_params x" w1] Some show ?thesis
    unfolding s by (simp add: toUpperCase_cleanup w1_def)
qed

text \<open>
  C3. When the delete statement succeeds, \<open>cleanupExpiredLogs\<close> returns the number of
  entries whose expiry is set and strictly before \<open>now\<close>, and the entries left are
  exactly the others, in their order, followed by at most one new entry: the record of
  the cleanup itself. When the statement fails, nothing is deleted and the call returns
  0. In both cases an entry without expiry survives.
\<close>

theorem cleanupExpiredLogs_deletes_expired:
  "(fate w 0 = None \<longrightarrow>
      fst (cleanupExpiredLogs now w) =
        Inr (length (filter (\<lambda>r. \<exists>d. retentionDate r = Some d \<and> d < now) (auditLogs w))) \<and>
      (\<exists>extra. auditLogs (snd (cleanupExpiredLogs now w)) =
          filter (\<lambda>r. \<not> (\<exists>d. retentionDate r = Some d \<and> d < now)) (auditLogs w) @ extra \<and>
          length extra \<le> 1 \<and>
          (\<forall>x\<in>set extra. action x = ''CLEANUP_EXPIRED_LOGS'' \<and> timestamp x = now))) \<and>
   (fate w 0 \<noteq> None \<longrightarrow>
      fst (cleanupExpiredLogs now w) = Inr 0 \<and>
      (\<exists>extra. auditLogs (snd (cleanupExpiredLogs now w)) = auditLogs w @ extra \<and>
          length extra \<le> 1 \<and>
          (\<forall>x\<in>set extra. action x = ''CLEANUP_EXPIRED_LOGS'' \<and> timestamp x = now))) \<and>
   (\<forall>r\<in>set (auditLogs w). retentionDate r = None \<longrightarrow>
      r \<in> set (auditLogs (snd (cleanupExpiredLogs now w))))"
proof -
  have del: "\<exists>extra. auditLogs (snd (cleanupExpiredLogs now w)) =
          filter (\<lambda>r. \<not> lt (retentionDate r) now) (auditLogs w) @ extra \<and>
          length extra \<le> 1 \<and>
          (\<forall>x\<in>set extra. action x = ''CLEANUP_EXPIRED_LOGS'' \<and> timestamp x = now)"
    if f: "fate w 0 = None"
    using cleanup_logs_shape[of now w] f by simp
  have kept: "\<exists>extra. auditLogs (snd (cleanupExpiredLogs now w)) = auditLogs w @ extra \<and>
          length extra \<le> 1 \<and>
          (\<forall>x\<in>set extra. action x = ''CLEANUP_EXPIRED_LOGS'' \<and> timestamp x = now)"
    if f: "fate w 0 = Some x" for x
    using cleanup_logs_shape[of now w] f by simp
  have surv: "r \<in> set (auditLogs (snd (cleanupExpiredLogs now w)))"
    if r: "r \<in> set (auditLogs w)" "retentionDate r = None" for r
  proof (cases "fate w 0")
    case None
    from del[OF None] r show ?thesis by (auto simp add: lt_def)
  next
    case (Some x)
    from kept[OF Some] r show ?thesis by auto
  qed
  show ?thesis
  proof (intro conjI impI)
    assume f: "fate w 0 = None"
    then show "fst (cleanupExpiredLogs now w) =
        Inr (length (filter (\<lambda>r. \<exists>d. retentionDate r = Some d \<and> d < now) (auditLogs w)))"
      by (simp add: cleanupExpiredLogs_ok lt_iff)
    from del[OF f] show "\<exists>extra. auditLogs (snd (cleanupExpiredLogs now w)) =
          filter (\<lambda>r. \<not> (\<exists>d. retentionDate r = Some d \<and> d < now)) (auditLogs w) @ extra \<and>
          length extra \<le> 1 \<and>
          (\<forall>x\<in>set extra. action x = ''CLEANUP_EXPIRED_LOGS'' \<and> timestamp x = now)"
      unfolding lt_iff .
  next
    assume "fate w 0 \<noteq> None"
    then obtain x where f: "fate w 0 = Some x" by auto
    then show "fst (cleanupExpiredLogs now w) = Inr 0" by (simp add: cleanupExpiredLogs_failed)
    from kept[OF f] show "\<exists>extra. auditLogs (snd (cleanupExpiredLogs now w)) = auditLogs w @ extra \<and>
          length extra \<le> 1 \<and>
          (\<forall>x\<in>set extra. action x = ''CLEANUP_EXPIRED_LOGS'' \<and> timestamp x = now)" .
  next
    from surv show "\<forall>r\<in>set (auditLogs w). retentionDate r = None \<longrightarrow>
      r \<in> set (auditLogs (snd (cleanupExpiredLogs now w)))" by blast
  qed
qed

theorem cleanupExpiredLogs_deletes_expired_witness:
  "fate (three_entries 1000) 0 = None \<and>
   fst (cleanupExpiredLogs 1000 (three_entries 1000)) = Inr 1 \<and>
   example_entry 3 ''A1'' 0 None \<in> set (auditLogs (snd (cleanupExpiredLogs 1000 (three_entries 1000))))"
  using cleanupExpiredLogs_deletes_expired[of "three_entries 1000" 1000]
  by (simp add: three_entries_def example_entry_def fate_def msPerDay_def)

text \<open>
  The delete and the policy lookup succeed and the insert of the recorder fails: the
  cleanup leaves no entry of its own.
\<close>

theorem cleanupExpiredLogs_unrecorded_counterexample:
  "auditLogs (snd (cleanupExpiredLogs 0
      (empty_world\<lparr>pending := [None, None, Some (Error ''connection lost'')]\<rparr>))) = []"
proof -
  let ?w = "empty_world\<lparr>pending := [None, None, Some (Error ''connection lost'')]\<rparr>"
  have "fate ?w 2 \<noteq> None \<or>
      fst (calculateRetentionDate 0 ''audit_logs'' (?w\<lparr>pending := tl (pending ?w)\<rparr>)) =
        Inr (Some InvalidDate)"
    by (simp add: fate_def)
  from cleanup_not_written[OF this] show ?thesis
    by (simp add: fate_def empty_world_def)
qed

text \<open>
  C4, as the code has it. Every call returns normally: the number of deleted entries
  when the delete succeeds, 0 when it throws. The record of the cleanup goes through the
  recorder, whose policy lookup is the second storage call and whose insert is the
  third. When the retention date that the recorder resolves is one the driver accepts and
  the insert succeeds, exactly one entry is appended, for the action
  \<open>CLEANUP_EXPIRED_LOGS\<close> and the actor \<open>system\<close>: with \<open>successful\<close> true and the
  deleted count as details when the delete succeeded, and with \<open>successful\<close> false and
  the error message when the delete threw. When the insert fails, or the retention date
  is out of range, no entry is appended.
\<close>

theorem cleanupExpiredLogs_records_itself:
  "fst (cleanupExpiredLogs now w) =
     Inr (if fate w 0 = None
          then length (filter (\<lambda>r. \<exists>d. retentionDate r = Some d \<and> d < now) (auditLogs w))
          else 0) \<and>
   (\<forall>r column.
      fst (calculateRetentionDate now ''audit_logs'' (w\<lparr>pending := tl (pending w)\<rparr>)) = Inr r \<and>
      retention_column r = Inr column \<and> fate w 2 = None \<longrightarrow>
      (fate w 0 = None \<longrightarrow>
         (\<exists>e. auditLogs (snd (cleanupExpiredLogs now w)) =
                filter (\<lambda>r. \<not> (\<exists>d. retentionDate r = Some d \<and> d < now)) (auditLogs w) @ [e] \<and>
              userId e = ''system'' \<and> action e = ''CLEANUP_EXPIRED_LOGS'' \<and>
              successful e = True \<and> errorMessage e = None \<and>
              details e = Some (''{'' @ quote_string ''deletedCount'' @ '':'' @
                show_nat (length (filter (\<lambda>r. \<exists>d. retentionDate r = Some d \<and> d < now)
                  (auditLogs w))) @ ''}'') \<and>
              retentionDate e = column \<and> timestamp e = now)) \<and>
      (\<forall>x. fate w 0 = Some x \<longrightarrow>
         (\<exists>e. auditLogs (snd (cleanupExpiredLogs now w)) = auditLogs w @ [e] \<and>
              userId e = ''system'' \<and> action e = ''CLEANUP_EXPIRED_LOGS'' \<and>
              successful e = False \<and>
              errorMessage e = Some (if instanceof_Error x then message x else ''Unknown error'') \<and>
              details e = None \<and> retentionDate e = column \<and> timestamp e = now))) \<and>
   (fate w 2 \<noteq> None \<or>
    fst (calculateRetentionDate now ''audit_logs'' (w\<lparr>pending := tl (pending w)\<rparr>)) =
      Inr (Some InvalidDate) \<longrightarrow>
      auditLogs (snd (cleanupExpiredLogs now w)) =
        (if fate w 0 = None
         then filter (\<lambda>r. \<not> (\<exists>d. retentionDate r = Some d \<and> d < now)) (auditLogs w)
         else auditLogs w))"
proof (intro conjI allI impI)
  show "fst (cleanupExpiredLogs now w) =
     Inr (if fate w 0 = None
          then length (filter (\<lambda>r. \<exists>d. retentionDate r = Some d \<and> d < now) (auditLogs w))
          else 0)"
    by (cases "fate w 0") (simp_all add: cleanupExpiredLogs_ok cleanupExpiredLogs_failed lt_iff)
next
  fix r column
  assume a: "fst (calculateRetentionDate now ''audit_logs'' (w\<lparr>pending := tl (pending w)\<rparr>)) = Inr r \<and>
      retention_column r = Inr column \<and> fate w 2 = None"
    and f: "fate w 0 = None"
  from a have r: "fst (calculateRetentionDate now ''audit_logs'' (w\<lparr>pending := tl (pending w)\<rparr>)) = Inr r"
    and c: "retention_column r = Inr column" and f2: "fate w 2 = None" by simp_all
  show "\<exists>e. auditLogs (snd (cleanupExpiredLogs now w)) =
                filter (\<lambda>r. \<not> (\<exists>d. retentionDate r = Some d \<and> d < now)) (auditLogs w) @ [e] \<and>
              userId e = ''system'' \<and> action e = ''CLEANUP_EXPIRED_LOGS'' \<and>
              successful e = True \<and> errorMessage e = None \<and>
              details e = Some (''{'' @ quote_string ''deletedCount'' @ '':'' @
                show_nat (length (filter (\<lambda>r. \<exists>d. retentionDate r = Some d \<and> d < now)
                  (auditLogs w))) @ ''}'') \<and>
              retentionDate e = column \<and> timestamp e = now"
    unfolding lt_iff[symmetric] cleanup_written_ok[OF f f2 r c] by simp
next
  fix r column x
  assume a: "fst (calculateRetentionDate now ''audit_logs'' (w\<lparr>pending := tl (pending w)\<rparr>)) = Inr r \<and>
      retention_column r = Inr column \<and> fate w 2 = None"
    and f: "fate w 0 = Some x"
  from a have r: "fst (calculateRetentionDate now ''audit_logs'' (w\<lparr>pending := tl (pending w)\<rparr>)) = Inr r"
    and c: "retention_column r = Inr column" and f2: "fate w 2 = None" by simp_all
  show "\<exists>e. auditLogs (snd (cleanupExpiredLogs now w)) = auditLogs w @ [e] \<and>
              userId e = ''system'' \<and> action e = ''CLEANUP_EXPIRED_LOGS'' \<and>
              successful e = False \<and>
              errorMessage e = Some (if instanceof_Error x then message x else ''Unknown error'') \<and>
              details e = None \<and> retentionDate e = column \<and> timestamp e = now"
    unfolding cleanup_written_failed[OF f f2 r c] by simp
next
  assume "fate w 2 \<noteq> None \<or>
    fst (calculateRetentionDate now ''audit_logs'' (w\<lparr>pending := tl (pending w)\<rparr>)) =
      Inr (Some InvalidDate)"
  from cleanup_not_written[OF this]
  show "auditLogs (snd (cleanupExpiredLogs now w)) =
        (if fate w 0 = None
         then filter (\<lambda>r. \<not> (\<exists>d. retentionDate r = Some d \<and> d < now)) (auditLogs w)
         else auditLogs w)"
    unfolding lt_iff by simp
qed

theorem cleanupExpiredLogs_records_itself_witness:
  "fst (cleanupExpiredLogs 1000 (three_entries 1000)) = Inr 1 \<and>
   (\<exists>e. auditLogs (snd (cleanupExpiredLogs 1000 (three_entries 1000))) =
        [example_entry 2 ''A1'' 0 (Some (1000 + msPerDay)), example_entry 3 ''A1'' 0 None, e] \<and>
        userId e = ''system'' \<and> action e = ''CLEANUP_EXPIRED_LOGS'' \<and> successful e = True \<and>
        details e = Some (''{'' @ quote_string ''deletedCount'' @ '':'' @ show_nat 1 @ ''}'') \<and>
        retentionDate e = Some (2557 * msPerDay + 1000)) \<and>
   fst (cleanupExpiredLogs 1000 (three_entries 1000\<lparr>pending := [Some (Error ''connection lost'')]\<rparr>)) =
     Inr 0 \<and>
   (\<exists>e. auditLogs (snd (cleanupExpiredLogs 1000
             (three_entries 1000\<lparr>pending := [Some (Error ''connection lost'')]\<rparr>))) =
           auditLogs (three_entries 1000) @ [e] \<and>
        successful e = False \<and> errorMessage e = Some ''connection lost'') \<and>
   fst (cleanupExpiredLogs 1000
          (three_entries 1000\<lparr>dataRetentionPolicies :=
             [\<lparr>dataType = ''audit_logs'', retentionPeriodDays = 100000001, description = ''Trails'',
               legalBasis = ''HIPAA'', isActive = True\<rparr>]\<rparr>)) = Inr 1 \<and>
   auditLogs (snd (cleanupExpiredLogs 1000
          (three_entries 1000\<lparr>dataRetentionPolicies :=
             [\<lparr>dataType = ''audit_logs'', retentionPeriodDays = 100000001, description = ''Trails'',
               legalBasis = ''HIPAA'', isActive = True\<rparr>]\<rparr>))) =
     [example_entry 2 ''A1'' 0 (Some (1000 + msPerDay)), example_entry 3 ''A1'' 0 None]"
proof -
  let ?w = "three_entries 1000"
  let ?v = "three_entries 1000\<lparr>pending := [Some (Error ''connection lost'')]\<rparr>"
  let ?p = "\<lparr>dataType = ''audit_logs'', retentionPeriodDays = 100000001, description = ''Trails'',
             legalBasis = ''HIPAA'', isActive = True\<rparr>"
  let ?u = "three_entries 1000\<lparr>dataRetentionPolicies := [?p]\<rparr>"
  let ?r = "Some (DateValue (2557 * msPerDay + 1000))"
  have f: "fate ?w 0 = None" "fate ?w 2 = None"
    by (simp_all add: three_entries_def fate_def)
  have g: "fate ?v 0 = Some (Error ''connection lost'')" "fate ?v 2 = None"
    by (simp_all add: three_entries_def fate_def)
  have h: "fate ?u 0 = None"
    by (simp add: three_entries_def fate_def)
  have kept: "filter (\<lambda>r. \<not> (\<exists>d. retentionDate r = Some d \<and> d < 1000)) (auditLogs ?w) =
      [example_entry 2 ''A1'' 0 (Some (1000 + msPerDay)), example_entry 3 ''A1'' 0 None]"
    by (simp add: three_entries_def example_entry_def msPerDay_def)
  have gone: "length (filter (\<lambda>r. \<exists>d. retentionDate r = Some d \<and> d < 1000) (auditLogs ?w)) = 1"
    by (simp add: three_entries_def example_entry_def msPerDay_def)
  have same: "auditLogs ?v = auditLogs ?w" "auditLogs ?u = auditLogs ?w"
    by simp_all
  have cw: "fst (calculateRetentionDate 1000 ''audit_logs'' (?w\<lparr>pending := tl (pending ?w)\<rparr>)) = Inr ?r"
    by (subst calculateRetentionDate_fallback)
       (simp_all add: three_entries_def fate_def setFullYear_example)
  have cv: "fst (calculateRetentionDate 1000 ''audit_logs'' (?v\<lparr>pending := tl (pending ?v)\<rparr>)) = Inr ?r"
    by (subst calculateRetentionDate_fallback)
       (simp_all add: three_entries_def fate_def setFullYear_example)
  have far: "setDate utc_zone 1000 (getDate utc_zone 1000 + 100000001) = InvalidDate"
    by (simp add: setDate_plus LocalTime_def UTC_def utc_zone_def TimeClip_def msPerDay_def)
  have cu: "fst (calculateRetentionDate 1000 ''audit_logs'' (?u\<lparr>pending := tl (pending ?u)\<rparr>)) =
      Inr (Some InvalidDate)"
    by (subst calculateRetentionDate_found[where p = ?p and ps = "[]"])
       (simp_all add: three_entries_def fate_def far)
  have rc: "retention_column ?r = Inr (Some (2557 * msPerDay + 1000))"
    by (simp add: retention_column_def mapToDriverValue_def)
  from cleanupExpiredLogs_records_itself[of 1000 ?w] f cw rc
  have 1: "fst (cleanupExpiredLogs 1000 ?w) = Inr 1 \<and>
      (\<exists>e. auditLogs (snd (cleanupExpiredLogs 1000 ?w)) =
        [example_entry 2 ''A1'' 0 (Some (1000 + msPerDay)), example_entry 3 ''A1'' 0 None, e] \<and>
        userId e = ''system'' \<and> action e = ''CLEANUP_EXPIRED_LOGS'' \<and> successful e = True \<and>
        details e = Some (''{'' @ quote_string ''deletedCount'' @ '':'' @ show_nat 1 @ ''}'') \<and>
        retentionDate e = Some (2557 * msPerDay + 1000))"
    unfolding kept gone by auto
  from cleanupExpiredLogs_records_itself[of 1000 ?v] g cv rc
  have 2: "fst (cleanupExpiredLogs 1000 ?v) = Inr 0 \<and>
      (\<exists>e. auditLogs (snd (cleanupExpiredLogs 1000 ?v)) = auditLogs ?w @ [e] \<and>
        successful e = False \<and> errorMessage e = Some ''connection lost'')"
    unfolding same by auto
  from cleanupExpiredLogs_records_itself[of 1000 ?u] h cu
  have 3: "fst (cleanupExpiredLogs 1000 ?u) = Inr 1 \<and>
      auditLogs (snd (cleanupExpiredLogs 1000 ?u)) =
        [example_entry 2 ''A1'' 0 (Some (1000 + msPerDay)), example_entry 3 ''A1'' 0 None]"
    unfolding same kept gone by auto
  from 1 2 3 show ?thesis by blast
qed

section \<open>The trail reader\<close>







section \<open>Seeding the policies\<close>

lemma select_policies_ok:
  "fate w 0 = None \<Longrightarrow>
   select_policies c w = (Inr (filter c (dataRetentionPolicies w)), w\<lparr>pending := tl (pending w)\<rparr>)"
  by (simp add: select_policies_def db_call_fate)

lemma select_policies_fails:
  "fate w 0 = Some e \<Longrightarrow> select_policies c w = (Inl e, w\<lparr>pending := tl (pending w)\<rparr>)"
  by (simp add: select_policies_def db_call_fate)

lemma insert_policy_ok:
  "fate w 0 = None \<Longrightarrow>
   insert_policy v w =
     (Inr (), w\<lparr>pending := tl (pending w),
               dataRetentionPolicies := dataRetentionPolicies w @
                 [\<lparr>dataType = dataType v, retentionPeriodDays = retentionPeriodDays v,
                   description = description v, legalBasis = legalBasis v, isActive = True\<rparr>]\<rparr>)"
  by (cases v) (simp add: insert_policy_def db_call_fate policy_values.defs retention_policy.defs)

lemma insert_policy_fails:
  "fate w 0 = Some e \<Longrightarrow> insert_policy v w = (Inl e, w\<lparr>pending := tl (pending w)\<rparr>)"
  by (simp add: insert_policy_def db_call_fate)

lemma rows_for_pending [simp]: "rows_for c (w\<lparr>pending := x\<rparr>) = rows_for c w"
  by (simp add: rows_for_def)


lemma seed_loop_grows:
  "\<exists>new. dataRetentionPolicies (snd (seed_loop ps w)) = dataRetentionPolicies w @ new"
proof (induction ps arbitrary: w)
  case Nil
  show ?case by simp
next
  case (Cons p ps)
  let ?w1 = "w\<lparr>pending := tl (pending w)\<rparr>"
  show ?case
  proof (cases "fate w 0")
    case (Some e)
    then show ?thesis by (simp add: select_policies_fails)
  next
    case None
    show ?thesis
    proof (cases "filter (\<lambda>q. dataType q = dataType p) (dataRetentionPolicies w) = []")
      case False
      with None Cons.IH[of ?w1] show ?thesis by (simp add: select_policies_ok)
    next
      case True
      show ?thesis
      proof (cases "fate ?w1 0")
        case (Some e)
        with None True show ?thesis by (simp add: select_policies_ok insert_policy_fails)
      next
        case n: None
        let ?w2 = "?w1\<lparr>pending := tl (pending ?w1),
               dataRetentionPolicies := dataRetentionPolicies ?w1 @
                 [\<lparr>dataType = dataType p, retentionPeriodDays = retentionPeriodDays p,
                   description = description p, legalBasis = legalBasis p, isActive = True\<rparr>]\<rparr>"
        have "snd (seed_loop (p # ps) w) = snd (seed_loop ps ?w2)"
          using None True n by (simp add: select_policies_ok insert_policy_ok)
        with Cons.IH[of ?w2] show ?thesis by auto
      qed
    qed
  qed
qed

lemma seed_loop_no_duplicates:
  "rows_for c (snd (seed_loop ps w)) \<le> max 1 (rows_for c w)"
proof (induction ps arbitrary: w)
  case Nil
  show ?case by simp
next
  case (Cons p ps)
  let ?w1 = "w\<lparr>pending := tl (pending w)\<rparr>"
  show ?case
  proof (cases "fate w 0")
    case (Some e)
    then show ?thesis by (simp add: select_policies_fails)
  next
    case None
    show ?thesis
    proof (cases "filter (\<lambda>q. dataType q = dataType p) (dataRetentionPolicies w) = []")
      case False
      with None Cons.IH[of ?w1] show ?thesis by (simp add: select_policies_ok)
    next
      case True
      show ?thesis
      proof (cases "fate ?w1 0")
        case (Some e)
        with None True show ?thesis by (simp add: select_policies_ok insert_policy_fails)
      next
        case n: None
        let ?w2 = "?w1\<lparr>pending := tl (pending ?w1),
               dataRetentionPolicies := dataRetentionPolicies ?w1 @
                 [\<lparr>dataType = dataType p, retentionPeriodDays = retentionPeriodDays p,
                   description = description p, legalBasis = legalBasis p, isActive = True\<rparr>]\<rparr>"
        have s: "snd (seed_loop (p # ps) w) = snd (seed_loop ps ?w2)"
          using None True n by (simp add: select_policies_ok insert_policy_ok)
        have "rows_for c ?w2 \<le> max 1 (rows_for c w)"
          using True by (cases "dataType p = c") (auto simp add: rows_for_def)
        with Cons.IH[of ?w2] show ?thesis unfolding s by simp
      qed
    qed
  qed
qed


lemma db_call_idle: "pending w = [] \<Longrightarrow> db_call w = (None, w)"
  by (simp add: db_call_def)

lemma seed_loop_idle:
  "pending w = [] \<Longrightarrow> \<forall>p\<in>set ps. 1 \<le> rows_for (dataType p) w \<Longrightarrow> seed_loop ps w = (Inr (), w)"
proof (induction ps)
  case Nil
  show ?case by simp
next
  case (Cons p ps)
  from Cons.prems(2) have "filter (\<lambda>q. dataType q = dataType p) (dataRetentionPolicies w) \<noteq> []"
    by (auto simp add: rows_for_def)
  with Cons show ?case
    by (simp add: select_policies_def db_call_idle)
qed

lemma seed_loop_pending:
  "pending w = [] \<Longrightarrow> pending (snd (seed_loop ps w)) = []"
proof (induction ps arbitrary: w)
  case Nil
  then show ?case by simp
next
  case (Cons p ps)
  let ?w2 = "w\<lparr>dataRetentionPolicies := dataRetentionPolicies w @
                 [policy_values.extend p (retention_policy.fields True)]\<rparr>"
  have "pending ?w2 = []" using Cons.prems by simp
  from Cons.IH[OF this] Cons.IH[OF Cons.prems] Cons.prems show ?case
    by (simp add: select_policies_def insert_policy_def db_call_idle)
qed

lemma rows_for_mono:
  "rows_for c w \<le> rows_for c (snd (seed_loop ps w))"
proof -
  from seed_loop_grows[of ps w] obtain new where
    "dataRetentionPolicies (snd (seed_loop ps w)) = dataRetentionPolicies w @ new" by blast
  then show ?thesis by (simp add: rows_for_def)
qed

lemma seed_loop_covers:
  "pending w = [] \<Longrightarrow> \<forall>p\<in>set ps. 1 \<le> rows_for (dataType p) (snd (seed_loop ps w))"
proof (induction ps arbitrary: w)
  case Nil
  then show ?case by simp
next
  case (Cons p ps)
  let ?w2 = "w\<lparr>dataRetentionPolicies := dataRetentionPolicies w @
                 [policy_values.extend p (retention_policy.fields True)]\<rparr>"
  have p2: "pending ?w2 = []" using Cons.prems by simp
  show ?case
  proof (cases "filter (\<lambda>q. dataType q = dataType p) (dataRetentionPolicies w) = []")
    case False
    then have s: "seed_loop (p # ps) w = seed_loop ps w"
      using Cons.prems by (simp add: select_policies_def db_call_idle)
    from False have "1 \<le> rows_for (dataType p) w"
      by (cases "filter (\<lambda>q. dataType q = dataType p) (dataRetentionPolicies w)")
         (simp_all add: rows_for_def)
    with rows_for_mono[of "dataType p" w ps] Cons.IH[OF Cons.prems] show ?thesis
      unfolding s by auto
  next
    case True
    then have s: "seed_loop (p # ps) w = seed_loop ps ?w2"
      using Cons.prems by (simp add: select_policies_def insert_policy_def db_call_idle)
    have "1 \<le> rows_for (dataType p) ?w2"
      by (cases p) (simp add: rows_for_def policy_values.defs retention_policy.defs)
    with rows_for_mono[of "dataType p" ?w2 ps] Cons.IH[OF p2] show ?thesis
      unfolding s by auto
  qed
qed

lemma initializeDefaultPolicies_world:
  "snd (initializeDefaultPolicies w) = snd (seed_loop defaultPolicies w)"
  by (simp add: initializeDefaultPolicies_def split: prod.split sum.split)

text \<open>
  A store that already holds two rows of a seeded category keeps both: seeding twice
  does not leave exactly one row of it.
\<close>

theorem initializeDefaultPolicies_duplicates_counterexample:
  "rows_for ''user'' (snd (initializeDefaultPolicies (snd (initializeDefaultPolicies two_user_rows)))) = 2 \<and>
   ''user'' \<in> dataType ` set defaultPolicies"
proof -
  let ?w1 = "snd (initializeDefaultPolicies two_user_rows)"
  let ?w2 = "snd (initializeDefaultPolicies ?w1)"
  have 0: "rows_for ''user'' two_user_rows = 2"
    by (simp add: rows_for_def two_user_rows_def user_policy_def)
  have "rows_for ''user'' two_user_rows \<le> rows_for ''user'' ?w1" "rows_for ''user'' ?w1 \<le> rows_for ''user'' ?w2"
    unfolding initializeDefaultPolicies_world by (rule rows_for_mono)+
  moreover have "rows_for ''user'' ?w1 \<le> max 1 (rows_for ''user'' two_user_rows)"
    "rows_for ''user'' ?w2 \<le> max 1 (rows_for ''user'' ?w1)"
    unfolding initializeDefaultPolicies_world by (rule seed_loop_no_duplicates)+
  ultimately have "rows_for ''user'' ?w2 = 2" using 0 by simp
  then show ?thesis by (simp add: defaultPolicies_def)
qed

text \<open>
  C8, as the code has it. \<open>initializeDefaultPolicies\<close> only appends rows, and only for
  categories that have no row: after two calls in succession, from any store state and
  whatever storage calls fail, the rows that were there are unchanged and no category
  has more rows than it had before or one, whichever is larger. When no storage call
  is set to fail (\<open>pending\<close> is empty), the second call changes nothing, and after
  the first call every seeded category has exactly one row if it had none or one, and
  as many as it had otherwise.
\<close>

theorem initializeDefaultPolicies_twice:
  "(\<exists>new. dataRetentionPolicies (snd (initializeDefaultPolicies (snd (initializeDefaultPolicies w)))) =
            dataRetentionPolicies w @ new) \<and>
   (\<forall>c. rows_for c (snd (initializeDefaultPolicies (snd (initializeDefaultPolicies w))))
          \<le> max 1 (rows_for c w)) \<and>
   (pending w = [] \<longrightarrow>
      snd (initializeDefaultPolicies (snd (initializeDefaultPolicies w))) =
        snd (initializeDefaultPolicies w) \<and>
      (\<forall>p\<in>set defaultPolicies.
         rows_for (dataType p) (snd (initializeDefaultPolicies w)) = max 1 (rows_for (dataType p) w)))"
proof (intro conjI allI impI)
  let ?w1 = "snd (seed_loop defaultPolicies w)"
  let ?w2 = "snd (seed_loop defaultPolicies ?w1)"
  from seed_loop_grows[of defaultPolicies w] seed_loop_grows[of defaultPolicies ?w1]
  show "\<exists>new. dataRetentionPolicies (snd (initializeDefaultPolicies (snd (initializeDefaultPolicies w)))) =
            dataRetentionPolicies w @ new"
    unfolding initializeDefaultPolicies_world by auto
  show "rows_for c (snd (initializeDefaultPolicies (snd (initializeDefaultPolicies w))))
          \<le> max 1 (rows_for c w)" for c
    using seed_loop_no_duplicates[of c defaultPolicies w]
      seed_loop_no_duplicates[of c defaultPolicies ?w1]
    unfolding initializeDefaultPolicies_world by simp
  assume idle: "pending w = []"
  have cov: "\<forall>p\<in>set defaultPolicies. 1 \<le> rows_for (dataType p) ?w1"
    by (rule seed_loop_covers[OF idle])
  have "seed_loop defaultPolicies ?w1 = (Inr (), ?w1)"
    by (rule seed_loop_idle[OF seed_loop_pending[OF idle] cov])
  then show "snd (initializeDefaultPolicies (snd (initializeDefaultPolicies w))) =
        snd (initializeDefaultPolicies w)"
    unfolding initializeDefaultPolicies_world by simp
  show "\<forall>p\<in>set defaultPolicies.
         rows_for (dataType p) (snd (initializeDefaultPolicies w)) = max 1 (rows_for (dataType p) w)"
  proof
    fix p assume p: "p \<in> set defaultPolicies"
    from cov p have "1 \<le> rows_for (dataType p) ?w1" by blast
    with rows_for_mono[of "dataType p" w defaultPolicies]
      seed_loop_no_duplicates[of "dataType p" defaultPolicies w]
    show "rows_for (dataType p) (snd (initializeDefaultPolicies w)) = max 1 (rows_for (dataType p) w)"
      unfolding initializeDefaultPolicies_world by simp
  qed
qed

theorem initializeDefaultPolicies_twice_witness:
  "snd (initializeDefaultPolicies (snd (initializeDefaultPolicies empty_world))) =
     snd (initializeDefaultPolicies empty_world) \<and>
   rows_for ''call_logs'' (snd (initializeDefaultPolicies empty_world)) = 1 \<and>
   rows_for ''appointments'' (snd (initializeDefaultPolicies empty_world)) = 1 \<and>
   rows_for ''audit_logs'' (snd (initializeDefaultPolicies empty_world)) = 1 \<and>
   rows_for ''user'' (snd (initializeDefaultPolicies empty_world)) = 1 \<and>
   rows_for ''consent_records'' (snd (initializeDefaultPolicies empty_world)) = 1"
proof -
  have idle: "pending empty_world = []" by (simp add: empty_world_def)
  have none: "rows_for c empty_world = 0" for c by (simp add: rows_for_def empty_world_def)
  from initializeDefaultPolicies_twice[of empty_world] idle
  have "snd (initializeDefaultPolicies (snd (initializeDefaultPolicies empty_world))) =
        snd (initializeDefaultPolicies empty_world)"
    and "\<forall>p\<in>set defaultPolicies.
         rows_for (dataType p) (snd (initializeDefaultPolicies empty_world)) = max 1 (rows_for (dataType p) empty_world)"
    by blast+
  then show ?thesis by (simp add: defaultPolicies_def none)
qed

section \<open>Retention dates\<close>

lemma utc_zone_times [simp]: "LocalTime utc_zone x = x" "UTC utc_zone x = x"
  by (simp_all add: LocalTime_def UTC_def utc_zone_def)

text \<open>2024-01-01 is day 19723, and the same date in 2031 is 2557 days later.\<close>

lemma new_year_2024:
  "(YearFromTime (MakeDate 19723 0), MonthFromTime (MakeDate 19723 0), DateFromTime (MakeDate 19723 0)) =
     (2024, 0, 1)"
  by (simp add: YearFromTime_def MonthFromTime_def DateFromTime_def MakeDate_def Day_def
      msPerDay_def march_year_def march_month_def days_before_month_def Let_def)

lemma new_year_2031:
  "MakeDate (MakeDay (2024 + 7) 0 1) (TimeWithinDay (MakeDate 19723 0)) =
     MakeDate 19723 0 + 2557 * msPerDay"
  by (simp add: MakeDay_def days_before_year_def days_before_month_def TimeWithinDay_def
      MakeDate_def msPerDay_def Let_def)

text \<open>2024-02-29 is day 19782; seven years on the date is 2031-03-01, day 22339.\<close>

lemma leap_day_2024:
  "(YearFromTime (MakeDate 19782 5), MonthFromTime (MakeDate 19782 5), DateFromTime (MakeDate 19782 5)) =
     (2024, 1, 29)"
  by (simp add: YearFromTime_def MonthFromTime_def DateFromTime_def MakeDate_def Day_def
      msPerDay_def march_year_def march_month_def days_before_month_def Let_def)

lemma first_of_march_2031:
  "MakeDate (MakeDay (2024 + 7) 1 29) (TimeWithinDay (MakeDate 19782 5)) = MakeDate 22339 5"
  "(YearFromTime (MakeDate 22339 5), MonthFromTime (MakeDate 22339 5), DateFromTime (MakeDate 22339 5)) =
     (2031, 2, 1)"
  by (simp_all add: YearFromTime_def MonthFromTime_def DateFromTime_def Day_def
      march_year_def march_month_def MakeDay_def days_before_year_def days_before_month_def
      TimeWithinDay_def MakeDate_def msPerDay_def Let_def)

text \<open>
  With no policy in the store and a host on universal time, an entry recorded at
  2024-01-01T00:00:00Z expires on 2031-01-01, which is 2557 days later, not 2555.
\<close>

theorem calculateRetentionDate_fallback_counterexample:
  "fst (calculateRetentionDate (MakeDate 19723 0) ''call_logs'' empty_world) =
     Inr (Some (DateValue (MakeDate 19723 0 + 2557 * msPerDay))) \<and>
   fst (calculateRetentionDate (MakeDate 19723 0) ''call_logs'' empty_world) \<noteq>
     Inr (Some (DateValue (MakeDate 19723 0 + 2555 * msPerDay))) \<and>
   (YearFromTime (MakeDate 19723 0), MonthFromTime (MakeDate 19723 0), DateFromTime (MakeDate 19723 0)) =
     (2024, 0, 1)"
proof -
  have f: "fate empty_world 0 = None" by (simp add: fate_def empty_world_def)
  have n: "filter (\<lambda>p. dataType p = ''call_logs'' \<and> isActive p) (dataRetentionPolicies empty_world) = []"
    by (simp add: empty_world_def)
  have z: "LocalTZA empty_world = utc_zone" by (simp add: empty_world_def)
  have d: "YearFromTime (MakeDate 19723 0) = 2024" "MonthFromTime (MakeDate 19723 0) = 0"
    "DateFromTime (MakeDate 19723 0) = 1"
    using new_year_2024 by simp_all
  have s: "setFullYear utc_zone (MakeDate 19723 0) (getFullYear utc_zone (MakeDate 19723 0) + 7) =
      DateValue (MakeDate 19723 0 + 2557 * msPerDay)"
    unfolding setFullYear_def getFullYear_def Let_def utc_zone_times d new_year_2031
    by (simp add: TimeClip_def MakeDate_def msPerDay_def)
  show ?thesis
    unfolding calculateRetentionDate_fallback[OF f n] z s using new_year_2024
    by (simp add: msPerDay_def)
qed

text \<open>
  C2, as the code has it. The dates are computed in the local time of the host. Let
  \<open>t\<close> be the local time at \<open>now\<close>. The target is a local date and time: with an active
  policy for the entity type, the first one found decides and the target is \<open>t\<close> plus its
  number of days, at the same time of day; with none, the target is \<open>t\<close> with the year
  advanced by 7, at the same time of day, which is 2555, 2556 or 2557 days after \<open>t\<close>
  and has the month and day of \<open>t\<close>, except that the 29th of February becomes the 1st
  of March. The expiry is the time value of the target in the time zone of the host, or
  an invalid date when that is out of the range of time values. When the policy lookup
  and the insert succeed and the payload can be serialised, the entry recorded at \<open>now\<close>
  carries the expiry; when the expiry is invalid, no entry is written.
\<close>

theorem logAction_stamps_retentionDate:
  assumes "fate w 0 = None" and "fate w 1 = None"
    and "details_column (p_details params) = Inr d"
  shows
    "let t = LocalTime (LocalTZA w) now;
         found = filter (\<lambda>p. dataType p = p_entityType params \<and> isActive p) (dataRetentionPolicies w);
         target = (case found of
                     policy # others \<Rightarrow> t + retentionPeriodDays policy * msPerDay
                   | [] \<Rightarrow> MakeDate (MakeDay (YearFromTime t + 7) (MonthFromTime t) (DateFromTime t))
                             (TimeWithinDay t));
         expiry = TimeClip (UTC (LocalTZA w) target)
     in fst (calculateRetentionDate now (p_entityType params) w) = Inr (Some expiry) \<and>
        (case expiry of
           DateValue r \<Rightarrow>
             (\<exists>e. auditLogs (snd (logAction now params w)) = auditLogs w @ [e] \<and>
                  timestamp e = now \<and> retentionDate e = Some r)
         | InvalidDate \<Rightarrow> auditLogs (snd (logAction now params w)) = auditLogs w) \<and>
        TimeWithinDay target = TimeWithinDay t \<and>
        (case found of
           policy # others \<Rightarrow>
             Day target = Day t + retentionPeriodDays policy \<and>
             UTC (LocalTZA w) target =
               now + retentionPeriodDays policy * msPerDay +
                 (LocalTZA w now True - LocalTZA w target False)
         | [] \<Rightarrow>
             Day t + 2555 \<le> Day target \<and> Day target \<le> Day t + 2557 \<and>
             (YearFromTime target, MonthFromTime target, DateFromTime target) =
               (if MonthFromTime t = 1 \<and> DateFromTime t = 29 then (YearFromTime t + 7, 2, 1)
                else (YearFromTime t + 7, MonthFromTime t, DateFromTime t)))"
proof -
  let ?t = "LocalTime (LocalTZA w) now"
  let ?found = "filter (\<lambda>p. dataType p = p_entityType params \<and> isActive p) (dataRetentionPolicies w)"
  let ?target = "case ?found of
                     policy # others \<Rightarrow> ?t + retentionPeriodDays policy * msPerDay
                   | [] \<Rightarrow> MakeDate (MakeDay (YearFromTime ?t + 7) (MonthFromTime ?t) (DateFromTime ?t))
                             (TimeWithinDay ?t)"
  let ?expiry = "TimeClip (UTC (LocalTZA w) ?target)"
  have c: "fst (calculateRetentionDate now (p_entityType params) w) = Inr (Some ?expiry)"
  proof (cases ?found)
    case Nil
    show ?thesis
      unfolding calculateRetentionDate_fallback[OF assms(1) Nil] Nil
      by (simp add: setFullYear_def getFullYear_def Let_def)
  next
    case (Cons p ps)
    show ?thesis
      unfolding calculateRetentionDate_found[OF assms(1) Cons] Cons
      by (simp add: setDate_plus)
  qed
  have e: "case ?expiry of
           DateValue r \<Rightarrow>
             (\<exists>e. auditLogs (snd (logAction now params w)) = auditLogs w @ [e] \<and>
                  timestamp e = now \<and> retentionDate e = Some r)
         | InvalidDate \<Rightarrow> auditLogs (snd (logAction now params w)) = auditLogs w"
  proof (cases ?expiry)
    case (DateValue r)
    have rc: "retention_column (Some ?expiry) = Inr (Some r)"
      unfolding DateValue by (simp add: retention_column_def mapToDriverValue_def)
    show ?thesis
      unfolding DateValue logAction_inserts[OF assms(3) assms(2) c rc] by simp
  next
    case InvalidDate
    have rc: "retention_column (Some ?expiry) = Inl (RangeError ''Invalid time value'')"
      unfolding InvalidDate by (simp add: retention_column_def mapToDriverValue_def)
    show ?thesis
      unfolding InvalidDate logAction_date_refused[OF assms(3) c rc] by simp
  qed
  have k: "TimeWithinDay ?target = TimeWithinDay ?t \<and>
        (case ?found of
           policy # others \<Rightarrow>
             Day ?target = Day ?t + retentionPeriodDays policy \<and>
             UTC (LocalTZA w) ?target =
               now + retentionPeriodDays policy * msPerDay +
                 (LocalTZA w now True - LocalTZA w ?target False)
         | [] \<Rightarrow>
             Day ?t + 2555 \<le> Day ?target \<and> Day ?target \<le> Day ?t + 2557 \<and>
             (YearFromTime ?target, MonthFromTime ?target, DateFromTime ?target) =
               (if MonthFromTime ?t = 1 \<and> DateFromTime ?t = 29 then (YearFromTime ?t + 7, 2, 1)
                else (YearFromTime ?t + 7, MonthFromTime ?t, DateFromTime ?t)))"
  proof (cases ?found)
    case Nil
    show ?thesis unfolding Nil using seven_years_on[of ?t] by simp
  next
    case (Cons p ps)
    have "TimeWithinDay (?t + retentionPeriodDays p * msPerDay) = TimeWithinDay ?t"
      by (simp add: TimeWithinDay_def)
    moreover have "Day (?t + retentionPeriodDays p * msPerDay) = Day ?t + retentionPeriodDays p"
      by (simp add: Day_def msPerDay_def)
    moreover have "UTC (LocalTZA w) (?t + retentionPeriodDays p * msPerDay) =
        now + retentionPeriodDays p * msPerDay +
          (LocalTZA w now True - LocalTZA w (?t + retentionPeriodDays p * msPerDay) False)"
      by (simp add: UTC_def LocalTime_def)
    ultimately show ?thesis unfolding Cons by simp
  qed
  from c e k show ?thesis unfolding Let_def by blast
qed

theorem logAction_stamps_retentionDate_witness:
  "(\<exists>e. auditLogs (snd (logAction (MakeDate 19723 0) (example_params None)
             appointment_policy_world)) = [e] \<and>
        retentionDate e = Some (MakeDate (19723 + 30) 0)) \<and>
   (\<exists>e. auditLogs (snd (logAction (MakeDate 19723 0) (example_params None) empty_world)) = [e] \<and>
        retentionDate e = Some (MakeDate (19723 + 2557) 0)) \<and>
   (\<exists>e. auditLogs (snd (logAction (MakeDate 19782 5) (example_params None) empty_world)) = [e] \<and>
        retentionDate e = Some (MakeDate 22339 5)) \<and>
   (\<exists>e. auditLogs (snd (logAction (MakeDate 19790 43200000) (example_params None)
             (appointment_policy_world\<lparr>LocalTZA := spring_forward_zone\<rparr>))) = [e] \<and>
        retentionDate e = Some (MakeDate (19790 + 30) 43200000 - 3600000)) \<and>
   auditLogs (snd (logAction (MakeDate 19723 0) (example_params None)
       (appointment_policy_world\<lparr>dataRetentionPolicies :=
          [\<lparr>dataType = ''appointment'', retentionPeriodDays = 100000001, description = ''Bookings'',
            legalBasis = ''HIPAA'', isActive = True\<rparr>]\<rparr>))) = []"
proof -
  let ?now = "MakeDate 19723 0"
  let ?p = "\<lparr>dataType = ''appointment'', retentionPeriodDays = 30, description = ''Bookings'',
             legalBasis = ''HIPAA'', isActive = True\<rparr>"
  let ?far = "\<lparr>dataType = ''appointment'', retentionPeriodDays = 100000001, description = ''Bookings'',
             legalBasis = ''HIPAA'', isActive = True\<rparr>"
  let ?dst = "appointment_policy_world\<lparr>LocalTZA := spring_forward_zone\<rparr>"
  let ?long = "appointment_policy_world\<lparr>dataRetentionPolicies := [?far]\<rparr>"
  have f: "fate appointment_policy_world 0 = None" "fate appointment_policy_world 1 = None"
    "fate empty_world 0 = None" "fate empty_world 1 = None"
    "fate ?dst 0 = None" "fate ?dst 1 = None" "fate ?long 0 = None" "fate ?long 1 = None"
    by (simp_all add: fate_def appointment_policy_world_def empty_world_def)
  have d: "details_column (p_details (example_params None)) = Inr None"
    by (simp add: details_column_def example_params_def)
  have p: "filter (\<lambda>p. dataType p = p_entityType (example_params None) \<and> isActive p)
             (dataRetentionPolicies appointment_policy_world) = [?p]"
    "filter (\<lambda>p. dataType p = p_entityType (example_params None) \<and> isActive p)
             (dataRetentionPolicies ?dst) = [?p]"
    "filter (\<lambda>p. dataType p = p_entityType (example_params None) \<and> isActive p)
             (dataRetentionPolicies ?long) = [?far]"
    "filter (\<lambda>p. dataType p = p_entityType (example_params None) \<and> isActive p)
             (dataRetentionPolicies empty_world) = []"
    by (simp_all add: appointment_policy_world_def example_params_def empty_world_def)
  have l: "auditLogs appointment_policy_world = []" "auditLogs empty_world = []"
    "auditLogs ?dst = []" "auditLogs ?long = []"
    by (simp_all add: appointment_policy_world_def empty_world_def)
  have z: "LocalTZA appointment_policy_world = utc_zone" "LocalTZA empty_world = utc_zone"
    "LocalTZA ?dst = spring_forward_zone" "LocalTZA ?long = utc_zone"
    by (simp_all add: appointment_policy_world_def empty_world_def)
  have a: "YearFromTime (MakeDate 19723 0) = 2024" "MonthFromTime (MakeDate 19723 0) = 0"
    "DateFromTime (MakeDate 19723 0) = 1"
    using new_year_2024 by simp_all
  have b: "YearFromTime (MakeDate 19782 5) = 2024" "MonthFromTime (MakeDate 19782 5) = 1"
    "DateFromTime (MakeDate 19782 5) = 29"
    using leap_day_2024 by simp_all
  from logAction_stamps_retentionDate[OF f(1,2) d, of ?now]
  have 1: "\<exists>e. auditLogs (snd (logAction ?now (example_params None) appointment_policy_world)) = [e] \<and>
        retentionDate e = Some (MakeDate (19723 + 30) 0)"
    unfolding Let_def p l z utc_zone_times
    by (auto simp add: TimeClip_def MakeDate_def msPerDay_def)
  from logAction_stamps_retentionDate[OF f(3,4) d, of ?now]
  have 2: "\<exists>e. auditLogs (snd (logAction ?now (example_params None) empty_world)) = [e] \<and>
        retentionDate e = Some (MakeDate (19723 + 2557) 0)"
    unfolding Let_def p l z utc_zone_times a new_year_2031
    by (auto simp add: TimeClip_def MakeDate_def msPerDay_def)
  from logAction_stamps_retentionDate[OF f(3,4) d, of "MakeDate 19782 5"]
  have 3: "\<exists>e. auditLogs (snd (logAction (MakeDate 19782 5) (example_params None) empty_world)) = [e] \<and>
        retentionDate e = Some (MakeDate 22339 5)"
    unfolding Let_def p l z utc_zone_times b first_of_march_2031(1)
    by (auto simp add: TimeClip_def MakeDate_def msPerDay_def)
  from logAction_stamps_retentionDate[OF f(5,6) d, of "MakeDate 19790 43200000"]
  have 4: "\<exists>e. auditLogs (snd (logAction (MakeDate 19790 43200000) (example_params None) ?dst)) = [e] \<and>
        retentionDate e = Some (MakeDate (19790 + 30) 43200000 - 3600000)"
    unfolding Let_def p l z
    by (auto simp add: LocalTime_def UTC_def spring_forward_zone_def TimeClip_def MakeDate_def
        msPerDay_def)
  from logAction_stamps_retentionDate[OF f(7,8) d, of ?now]
  have 5: "auditLogs (snd (logAction ?now (example_params None) ?long)) = []"
    unfolding Let_def p l z utc_zone_times
    by (auto simp add: TimeClip_def MakeDate_def msPerDay_def)
  from 1 2 3 4 5 show ?thesis by blast
qed

section \<open>Redaction\<close>

lemma length_set_prop [simp]: "length (set_prop h a f v) = length h"
  by (simp add: set_prop_def)

lemma take_set_prop [simp]: "take a (set_prop h a f v) = take a h"
  by (simp add: set_prop_def)

lemma map_of_assign: "map_of (assign k v kvs) k' = (if k' = k then Some v else map_of kvs k')"
  by (induction kvs) auto

lemma get_prop_set_prop:
  "a < length h \<Longrightarrow> get_prop (set_prop h a f v) a f' = (if f' = f then v else get_prop h a f')"
  by (simp add: get_prop_def set_prop_def props_at_def map_of_assign)

lemma redact_loop_length: "length (snd (redact_loop r fs h)) = length h"
  by (induction r fs h rule: redact_loop.induct) (auto simp add: call_replace_def split: jsval.split)

lemma redact_loop_below: "take r (snd (redact_loop r fs h)) = take r h"
  by (induction r fs h rule: redact_loop.induct) (auto simp add: call_replace_def split: jsval.split)

lemma redactPII_keeps_heap: "take (length h) (snd (redactPII h data' fs)) = h"
proof (cases "\<not> truthy_val data' \<or> typeof data' \<noteq> ''object''")
  case True
  then show ?thesis by (simp add: redactPII_def)
next
  case False
  have "snd (redactPII h data' fs) = snd (redact_loop (length h) fs (h @ [spread h data']))"
    using False by (simp add: redactPII_def Let_def split: prod.split sum.split)
  then show ?thesis by (simp add: redact_loop_below)
qed

lemma redactPII_not_object:
  "\<not> truthy_val data' \<or> typeof data' \<noteq> ''object'' \<Longrightarrow> redactPII h data' fs = (Inr data', h)"
  by (simp add: redactPII_def)

lemma replace_phone_example: "replace_phone ''+447700900123'' = ''+447700***''"
  by (simp add: phone_match_def is_digit_def)

lemma replace_email_example: "replace_email ''jane@x.com'' = ''j***@x.com''"
  by (simp add: email_match_def is_line_terminator_def)

lemma redactPII_example:
  assumes "a < length h"
    and "h ! a = Obj [(''phone'', VStr ''+447700900123''), (''email'', VStr ''jane@x.com''),
                     (''name'', VStr ''Jane Doe'')]"
  shows "redactPII h (VRef a) default_fieldsToRedact =
     (Inr (VRef (length h)),
      h @ [Obj [(''phone'', VStr ''+447700***''), (''email'', VStr ''j***@x.com''),
                (''name'', VStr ''***REDACTED***'')]])"
  using assms
  by (simp add: redactPII_def default_fieldsToRedact_def spread_def props_at_def get_prop_def
      set_prop_def call_replace_def replace_phone_example replace_email_example nth_append Let_def
      del: replace_phone.simps replace_email.simps)

lemma unreplaceable_set_prop:
  "r < length h \<Longrightarrow>
   unreplaceable (set_prop h r f (VStr s)) r g = (g \<noteq> f \<and> unreplaceable h r g)"
  by (simp add: unreplaceable_def get_prop_set_prop)

lemma redact_loop_throw:
  assumes "unreplaceable h r f"
  shows "redact_loop r (f # fs) h = (Inl (TypeError ''redacted[field].replace is not a function''), h)"
proof (cases "get_prop h r f")
  case (VStr s)
  with assms show ?thesis by (simp add: unreplaceable_def)
qed (use assms in \<open>auto simp add: unreplaceable_def call_replace_def\<close>)

lemma redact_loop_step:
  assumes "r < length h" and "\<not> unreplaceable h r f"
  shows "\<exists>h'. redact_loop r (f # fs) h = redact_loop r fs h' \<and> length h' = length h \<and>
              (\<forall>g. unreplaceable h' r g = unreplaceable h r g) \<and>
              (\<forall>g. g \<noteq> f \<longrightarrow> get_prop h' r g = get_prop h r g)"
proof (cases "truthy_val (get_prop h r f)")
  case False
  then have "redact_loop r (f # fs) h = redact_loop r fs h" by simp
  then show ?thesis by blast
next
  case True
  have same: "length (set_prop h r f (VStr s)) = length h \<and>
      (\<forall>g. unreplaceable (set_prop h r f (VStr s)) r g = unreplaceable h r g) \<and>
      (\<forall>g. g \<noteq> f \<longrightarrow> get_prop (set_prop h r f (VStr s)) r g = get_prop h r g)" for s
    using assms by (auto simp add: unreplaceable_set_prop get_prop_set_prop)
  show ?thesis
  proof (cases "f = ''phone'' \<or> f = ''email''")
    case False
    with True have "redact_loop r (f # fs) h = redact_loop r fs (set_prop h r f (VStr ''***REDACTED***''))"
      by simp
    with same[of "''***REDACTED***''"] show ?thesis by blast
  next
    case pe: True
    with True assms(2) obtain s where s: "get_prop h r f = VStr s"
      by (cases "get_prop h r f") (auto simp add: unreplaceable_def)
    show ?thesis
    proof (cases "f = ''phone''")
      case True
      with s \<open>truthy_val (get_prop h r f)\<close>
      have "redact_loop r (f # fs) h = redact_loop r fs (set_prop h r f (VStr (replace_phone s)))"
        by (simp add: call_replace_def)
      with same[of "replace_phone s"] show ?thesis by blast
    next
      case False
      with pe s \<open>truthy_val (get_prop h r f)\<close>
      have "redact_loop r (f # fs) h = redact_loop r fs (set_prop h r f (VStr (replace_email s)))"
        by (simp add: call_replace_def)
      with same[of "replace_email s"] show ?thesis by blast
    qed
  qed
qed



lemma redactPII_object:
  "redactPII h (VRef a) fs =
     (case redact_loop (length h) fs (h @ [spread h (VRef a)]) of
        (Inl e, h2) \<Rightarrow> (Inl e, h2)
      | (Inr u, h2) \<Rightarrow> (Inr (VRef (length h)), h2))"
  by (simp add: redactPII_def Let_def)

lemma redact_loop_other_fields:
  assumes "r < length h" and "f \<notin> set fs"
  shows "get_prop (snd (redact_loop r fs h)) r f = get_prop h r f"
  using assms
proof (induction fs arbitrary: h)
  case Nil
  show ?case by simp
next
  case (Cons g fs)
  show ?case
  proof (cases "unreplaceable h r g")
    case True
    then show ?thesis by (simp add: redact_loop_throw del: redact_loop.simps)
  next
    case False
    from redact_loop_step[OF Cons.prems(1) False, of fs] obtain h' where
      h': "redact_loop r (g # fs) h = redact_loop r fs h'" "length h' = length h"
      "\<forall>k. k \<noteq> g \<longrightarrow> get_prop h' r k = get_prop h r k" by blast
    from Cons.prems h'(2) have "r < length h'" "f \<notin> set fs" "f \<noteq> g" by auto
    with Cons.IH[of h'] h'(3) show ?thesis
      unfolding h'(1) by simp
  qed
qed

lemma redactPII_other_fields:
  "f \<notin> set fs \<Longrightarrow> get_prop (snd (redactPII h (VRef a) fs)) (length h) f = get_prop h a f"
proof -
  assume n: "f \<notin> set fs"
  have w: "snd (redactPII h (VRef a) fs) = snd (redact_loop (length h) fs (h @ [spread h (VRef a)]))"
    by (simp add: redactPII_object split: prod.split sum.split)
  have "length h < length (h @ [spread h (VRef a)])" by simp
  from redact_loop_other_fields[OF this n] show ?thesis
    unfolding w by (simp add: get_prop_def props_at_def spread_def)
qed

text \<open>
  C9. \<open>redactPII\<close> leaves every object of the heap it was given as it was, whatever
  its arguments: it works on a copy, allocated behind them, and a field of the copy
  that is not listed holds what the field of the original holds. Applied to the record
  with phone +447700900123, email jane@x.com and name Jane Doe, it returns the new
  object, whose phone is +447700***, whose email is j***@x.com and whose name is
  ***REDACTED***. Applied to \<open>null\<close>, to 42 or to any value that is not an object, it
  returns its argument and allocates nothing.
\<close>

theorem redactPII_copies:
  "take (length h) (snd (redactPII h data' fs)) = h \<and>
   (f \<notin> set fs \<longrightarrow> get_prop (snd (redactPII h (VRef a) fs)) (length h) f = get_prop h a f) \<and>
   (a < length h \<and>
    h ! a = Obj [(''phone'', VStr ''+447700900123''), (''email'', VStr ''jane@x.com''),
                 (''name'', VStr ''Jane Doe'')] \<longrightarrow>
    redactPII h (VRef a) default_fieldsToRedact =
      (Inr (VRef (length h)),
       h @ [Obj [(''phone'', VStr ''+447700***''), (''email'', VStr ''j***@x.com''),
                 (''name'', VStr ''***REDACTED***'')]])) \<and>
   redactPII h VNull fs = (Inr VNull, h) \<and>
   redactPII h (VNum 42) fs = (Inr (VNum 42), h) \<and>
   (typeof data' \<noteq> ''object'' \<longrightarrow> redactPII h data' fs = (Inr data', h))"
  by (simp add: redactPII_keeps_heap redactPII_example redactPII_not_object redactPII_other_fields)

theorem redactPII_copies_witness:
  "redactPII [Obj [(''phone'', VStr ''+447700900123''), (''email'', VStr ''jane@x.com''),
                   (''name'', VStr ''Jane Doe'')]] (VRef 0) default_fieldsToRedact =
     (Inr (VRef 1),
      [Obj [(''phone'', VStr ''+447700900123''), (''email'', VStr ''jane@x.com''),
            (''name'', VStr ''Jane Doe'')],
       Obj [(''phone'', VStr ''+447700***''), (''email'', VStr ''j***@x.com''),
            (''name'', VStr ''***REDACTED***'')]]) \<and>
   get_prop (snd (redactPII [Obj [(''name'', VStr ''Jane Doe''), (''age'', VNum 30)]] (VRef 0)
                    default_fieldsToRedact)) 1 ''age'' = VNum 30 \<and>
   redactPII [] (VStr ''text'') default_fieldsToRedact = (Inr (VStr ''text''), [])"
  using redactPII_copies[where h = "[Obj [(''phone'', VStr ''+447700900123''),
        (''email'', VStr ''jane@x.com''), (''name'', VStr ''Jane Doe'')]]"
      and data' = "VRef 0" and fs = default_fieldsToRedact and a = 0 and f = "''age''"]
    redactPII_copies[where h = "[Obj [(''name'', VStr ''Jane Doe''), (''age'', VNum 30)]]"
      and data' = "VRef 0" and fs = default_fieldsToRedact and a = 0 and f = "''age''"]
    redactPII_copies[where h = "[]" and data' = "VStr ''text''" and fs = default_fieldsToRedact
      and a = 0 and f = "''age''"]
  by (simp add: default_fieldsToRedact_def get_prop_def props_at_def)




lemma replace_phone_plus_digits:
  assumes "list_all is_digit ds" and "5 \<le> length ds"
  shows "replace_phone (CHR ''+'' # ds) = CHR ''+'' # take (min 3 (length ds - 4) + 3) ds @ ''***''"
proof -
  have t: "takeWhile is_digit ds = ds"
    using assms(1) by (simp add: list_all_iff)
  have "take (min 3 (length ds - 4)) ds @ take 3 (drop (min 3 (length ds - 4)) ds) =
        take (min 3 (length ds - 4) + 3) ds"
    by (simp add: take_add)
  then show ?thesis
    using assms(2) by (simp add: phone_match_def t Let_def)
qed

lemma replace_phone_no_match:
  "\<forall>i<length s. phone_match (drop i s) = None \<Longrightarrow> replace_phone s = s"
proof (induction s)
  case Nil
  show ?case by simp
next
  case (Cons c cs)
  from Cons.prems have "phone_match (drop 0 (c # cs)) = None" by blast
  then have h: "phone_match (c # cs) = None" by simp
  have "\<forall>i<length cs. phone_match (drop i cs) = None"
  proof (intro allI impI)
    fix i assume "i < length cs"
    then have "Suc i < length (c # cs)" by simp
    with Cons.prems have "phone_match (drop (Suc i) (c # cs)) = None" by blast
    then show "phone_match (drop i cs) = None" by simp
  qed
  with Cons.IH h show ?case by simp
qed

lemma phone_match_no_plus:
  "CHR ''+'' \<notin> set s \<Longrightarrow> phone_match (drop i s) = None"
proof (cases "drop i s")
  case Nil
  then show ?thesis by (simp add: phone_match_def)
next
  case (Cons c cs)
  assume "CHR ''+'' \<notin> set s"
  moreover have "c \<in> set s" using Cons by (metis in_set_dropD list.set_intros(1))
  ultimately have "c \<noteq> CHR ''+''" by blast
  with Cons show ?thesis by (simp add: phone_match_def)
qed

lemma get_prop_phone_step:
  assumes "r < length h" and "get_prop h r ''phone'' = VStr s" and "\<not> unreplaceable h r f"
  shows "\<exists>h'. redact_loop r (f # fs) h = redact_loop r fs h' \<and> length h' = length h \<and>
      get_prop h' r ''phone'' = VStr ((replace_phone ^^ count_list [f] ''phone'') s)"
proof (cases "truthy_val (get_prop h r f)")
  case False
  then have l: "redact_loop r (f # fs) h = redact_loop r fs h" by simp
  show ?thesis
  proof (cases "f = ''phone''")
    case True
    with False assms(2) have "s = []" by simp
    with l assms(2) True show ?thesis by (intro exI[of _ h]) simp
  next
    case False
    with l assms(2) show ?thesis by (intro exI[of _ h]) simp
  qed
next
  case True
  show ?thesis
  proof (cases "f = ''phone''")
    case p: True
    with True assms(2)
    have "redact_loop r (f # fs) h = redact_loop r fs (set_prop h r f (VStr (replace_phone s)))"
      by (simp add: call_replace_def)
    with p assms(1) show ?thesis
      by (intro exI[of _ "set_prop h r f (VStr (replace_phone s))"]) (simp add: get_prop_set_prop)
  next
    case np: False
    show ?thesis
    proof (cases "f = ''email''")
      case e: True
      with True assms(3) obtain t where t: "get_prop h r f = VStr t"
        by (cases "get_prop h r f") (auto simp add: unreplaceable_def)
      with True e
      have "redact_loop r (f # fs) h = redact_loop r fs (set_prop h r f (VStr (replace_email t)))"
        by (simp add: call_replace_def)
      with np assms(1,2) show ?thesis
        by (intro exI[of _ "set_prop h r f (VStr (replace_email t))"]) (simp add: get_prop_set_prop)
    next
      case False
      with True np
      have "redact_loop r (f # fs) h = redact_loop r fs (set_prop h r f (VStr ''***REDACTED***''))"
        by simp
      with np assms(1,2) show ?thesis
        by (intro exI[of _ "set_prop h r f (VStr ''***REDACTED***'')"]) (simp add: get_prop_set_prop)
    qed
  qed
qed

lemma redact_loop_phone:
  assumes "r < length h" and "get_prop h r ''phone'' = VStr s" and "fst (redact_loop r fs h) = Inr ()"
  shows "get_prop (snd (redact_loop r fs h)) r ''phone'' =
           VStr ((replace_phone ^^ count_list fs ''phone'') s)"
  using assms
proof (induction fs arbitrary: h s)
  case Nil
  then show ?case by simp
next
  case (Cons f fs)
  have nu: "\<not> unreplaceable h r f"
  proof
    assume "unreplaceable h r f"
    from redact_loop_throw[OF this, of fs] Cons.prems(3) show False by simp
  qed
  from get_prop_phone_step[OF Cons.prems(1,2) nu, of fs] obtain h' where
    h': "redact_loop r (f # fs) h = redact_loop r fs h'" "length h' = length h"
    "get_prop h' r ''phone'' = VStr ((replace_phone ^^ count_list [f] ''phone'') s)" by blast
  from Cons.prems(1) h'(2) have r: "r < length h'" by simp
  from Cons.prems(3) have ok: "fst (redact_loop r fs h') = Inr ()" unfolding h'(1) .
  from Cons.IH[OF r h'(3) ok] show ?case
    unfolding h'(1) by (cases "f = ''phone''") (simp_all add: funpow_swap1)
qed

lemma phone_match_shape:
  assumes "phone_match m = Some (g1, g2, g3, rest)"
  shows "m = g1 @ g2 @ g3 @ rest \<and>
         (\<exists>ds. g1 = CHR ''+'' # ds \<and> 1 \<le> length ds \<and> length ds \<le> 3 \<and> list_all is_digit ds) \<and>
         length g2 = 3 \<and> list_all is_digit g2 \<and> g3 \<noteq> [] \<and> list_all is_digit g3 \<and>
         (rest = [] \<or> \<not> is_digit (hd rest))"
proof (cases m)
  case Nil
  with assms show ?thesis by (simp add: phone_match_def)
next
  case (Cons c cs)
  define ds where "ds = takeWhile is_digit cs"
  define n where "n = min 3 (length ds - 4)"
  from assms Cons have c: "c = CHR ''+''" and k: "5 \<le> length ds"
    by (auto simp add: phone_match_def ds_def Let_def split: if_splits)
  from assms Cons c k have g: "g1 = c # take n ds" "g2 = take 3 (drop n ds)"
    "g3 = drop (n + 3) ds" "rest = drop (length ds) cs"
    by (simp_all add: phone_match_def ds_def[symmetric] n_def Let_def)
  have d: "list_all is_digit ds"
    unfolding ds_def list_all_iff by (auto dest: set_takeWhileD)
  have n: "1 \<le> n" "n \<le> 3" "n + 3 < length ds" using k by (simp_all add: n_def)
  have cs: "ds @ drop (length ds) cs = cs"
    unfolding ds_def dropWhile_eq_drop[symmetric] by simp
  have parts: "take n ds @ take 3 (drop n ds) @ drop (n + 3) ds = ds"
    by (metis append.assoc append_take_drop_id take_add)
  have "g1 @ g2 @ g3 @ rest =
      c # (take n ds @ take 3 (drop n ds) @ drop (n + 3) ds) @ drop (length ds) cs"
    by (simp add: g)
  also have "\<dots> = c # cs" unfolding parts cs ..
  finally have whole: "m = g1 @ g2 @ g3 @ rest" using Cons by simp
  have r: "rest = [] \<or> \<not> is_digit (hd rest)"
    unfolding g(4) ds_def
    by (metis dropWhile_eq_drop hd_dropWhile)
  from d have sub: "list_all is_digit (take n ds)" "list_all is_digit (take 3 (drop n ds))"
    "list_all is_digit (drop (n + 3) ds)"
    unfolding list_all_iff by (auto dest: in_set_takeD in_set_dropD)
  have ex: "\<exists>ds'. g1 = CHR ''+'' # ds' \<and> 1 \<le> length ds' \<and> length ds' \<le> 3 \<and> list_all is_digit ds'"
    using n sub(1) by (intro exI[of _ "take n ds"]) (simp add: g(1) c)
  have g2: "length g2 = 3 \<and> list_all is_digit g2" using n sub(2) by (simp add: g(2))
  have g3: "g3 \<noteq> [] \<and> list_all is_digit g3" using n sub(3) by (simp add: g(3))
  from whole ex r g2 g3 show ?thesis by blast
qed

text \<open>Only the leftmost match is replaced; the text before it and after it is kept.\<close>

lemma replace_phone_leftmost:
  assumes "\<forall>i<length pre. phone_match (drop i (pre @ m)) = None"
    and "phone_match m = Some (g1, g2, g3, rest)"
  shows "replace_phone (pre @ m) = pre @ g1 @ g2 @ ''***'' @ rest"
  using assms(1)
proof (induction pre)
  case Nil
  from assms(2) obtain c cs where "m = c # cs" by (cases m) (auto simp add: phone_match_def)
  with assms(2) show ?case by simp
next
  case (Cons c pre)
  from Cons.prems have "phone_match (drop 0 ((c # pre) @ m)) = None" by blast
  then have h: "phone_match (c # pre @ m) = None" by simp
  have "\<forall>i<length pre. phone_match (drop i (pre @ m)) = None"
  proof (intro allI impI)
    fix i assume "i < length pre"
    then have "Suc i < length (c # pre)" by simp
    with Cons.prems have "phone_match (drop (Suc i) ((c # pre) @ m)) = None" by blast
    then show "phone_match (drop i (pre @ m)) = None" by simp
  qed
  with Cons.IH h show ?case by simp
qed

text \<open>
  The phone of the copy: when \<open>phone\<close> is listed once and holds a string, and the call
  returns, it is the string after the replacement.
\<close>

lemma redactPII_phone_value:
  assumes "count_list fs ''phone'' = 1" and "get_prop h a ''phone'' = VStr s"
    and "fst (redactPII h (VRef a) fs) = Inr v"
  shows "v = VRef (length h) \<and>
      get_prop (snd (redactPII h (VRef a) fs)) (length h) ''phone'' = VStr (replace_phone s)"
proof -
  let ?h1 = "h @ [spread h (VRef a)]"
  obtain x h2 where l: "redact_loop (length h) fs ?h1 = (x, h2)"
    by (cases "redact_loop (length h) fs ?h1")
  from assms(3) have "x = Inr ()" and v: "v = VRef (length h)"
    by (auto simp add: redactPII_object l split: sum.splits)
  then have ok: "fst (redact_loop (length h) fs ?h1) = Inr ()" by (simp add: l)
  have r: "length h < length ?h1" by simp
  have p: "get_prop ?h1 (length h) ''phone'' = VStr s"
    using assms(2) by (simp add: get_prop_def props_at_def spread_def)
  have w: "snd (redactPII h (VRef a) fs) = snd (redact_loop (length h) fs ?h1)"
    by (simp add: redactPII_object split: prod.split sum.split)
  from redact_loop_phone[OF r p ok] assms(1) v show ?thesis
    unfolding w by simp
qed

text \<open>Text after the digits of a match is kept as it is.\<close>

lemma replace_phone_extension_example:
  "replace_phone ''+447700900123 ext 5'' = ''+447700*** ext 5''"
  by (simp add: phone_match_def is_digit_def)

text \<open>
  C6. The claim does not hold of the code for a phone value that does not have the
  expected shape: the code has no fallback to the mask. When \<open>phone\<close> is listed once and
  holds a string in which the pattern \<open>+<1-3 digits><3 digits><1 or more digits>\<close>
  matches nowhere, and the call returns, the phone of the copy is that string, in clear.
\<close>

theorem redactPII_phone_in_clear:
  assumes "count_list fs ''phone'' = 1" and "get_prop h a ''phone'' = VStr s"
    and "\<forall>i<length s. phone_match (drop i s) = None"
    and "fst (redactPII h (VRef a) fs) = Inr v"
  shows "v = VRef (length h) \<and>
         get_prop (snd (redactPII h (VRef a) fs)) (length h) ''phone'' = VStr s"
  using redactPII_phone_value[OF assms(1,2,4)] replace_phone_no_match[OF assms(3)] by simp

text \<open>
  The record whose phone is 07700900123, a number without a plus sign, redacted with the
  default field list: the phone of the copy is the whole number, while the name is
  masked.
\<close>

theorem redactPII_phone_in_clear_witness:
  "fst (redactPII [Obj [(''phone'', VStr ''07700900123''), (''name'', VStr ''Jane Doe'')]] (VRef 0)
          default_fieldsToRedact) = Inr (VRef 1) \<and>
   get_prop (snd (redactPII [Obj [(''phone'', VStr ''07700900123''), (''name'', VStr ''Jane Doe'')]]
                    (VRef 0) default_fieldsToRedact)) 1 ''phone'' = VStr ''07700900123'' \<and>
   get_prop (snd (redactPII [Obj [(''phone'', VStr ''07700900123''), (''name'', VStr ''Jane Doe'')]]
                    (VRef 0) default_fieldsToRedact)) 1 ''name'' = VStr ''***REDACTED***''"
proof -
  let ?h = "[Obj [(''phone'', VStr ''07700900123''), (''name'', VStr ''Jane Doe'')]]"
  have c: "count_list default_fieldsToRedact ''phone'' = 1"
    by (simp add: default_fieldsToRedact_def)
  have g: "get_prop ?h 0 ''phone'' = VStr ''07700900123''"
    by (simp add: get_prop_def props_at_def)
  have n: "\<forall>i<length ''07700900123''. phone_match (drop i ''07700900123'') = None"
    by (intro allI impI phone_match_no_plus) simp
  have e: "redactPII ?h (VRef 0) default_fieldsToRedact =
     (Inr (VRef 1),
      [Obj [(''phone'', VStr ''07700900123''), (''name'', VStr ''Jane Doe'')],
       Obj [(''phone'', VStr ''07700900123''), (''name'', VStr ''***REDACTED***'')]])"
    by (simp add: redactPII_def default_fieldsToRedact_def spread_def props_at_def get_prop_def
        set_prop_def call_replace_def phone_match_def Let_def)
  then have f: "fst (redactPII ?h (VRef 0) default_fieldsToRedact) = Inr (VRef 1)" by simp
  from redactPII_phone_in_clear[OF c g n f]
  have 1: "get_prop (snd (redactPII ?h (VRef 0) default_fieldsToRedact)) 1 ''phone'' =
      VStr ''07700900123''" by simp
  have 2: "get_prop (snd (redactPII ?h (VRef 0) default_fieldsToRedact)) 1 ''name'' =
      VStr ''***REDACTED***''"
    unfolding e by (simp add: get_prop_def props_at_def)
  from f 1 2 show ?thesis by blast
qed

end
